theory Spec2Isabelle
  imports Complex_Main "HOL-Library.Word"
begin

unbundle bit_operations_syntax

section \<open>JavaScript strings and integer formatting\<close>

text \<open>
  The pages of the repository format the generated integers with
  \<^verbatim>\<open>Number.prototype.toString(radix)\<close>, \<^verbatim>\<open>String.prototype.padStart\<close> and
  \<^verbatim>\<open>String.prototype.toUpperCase\<close>, and read the input fields with \<^verbatim>\<open>parseInt\<close>.
  Strings are lists of characters; a character is identified with its code
  (\<open>of_char\<close>, below 256), so that \<open>48\<close> is the digit zero, \<open>97\<close> the letter a, \<open>65\<close> the
  letter A. The radix is 2, 10 or 16 wherever the sources convert a number.

  The generated numbers are integers, and a JavaScript number that holds one is an
  \<open>int\<close>. A JavaScript number is a double: it holds every integer \<open>n\<close> with
  \<open>|n| \<le> 2^53 - 1\<close> exactly, and for these \<^verbatim>\<open>toString\<close> prints the exact digits in every
  radix. Beyond, a number is rounded to the nearest double, \<^verbatim>\<open>toString()\<close> prints the
  shortest digits that read back as that double, and from \<open>10^21\<close> on it prints exponent
  notation (\<^verbatim>\<open>1e+21\<close>). The definitions of this section describe the code for the
  integers that are held exactly, and every theorem about formatting is stated for these.
\<close>

definition MAX_SAFE_INTEGER :: int where
  "MAX_SAFE_INTEGER = 2 ^ 53 - 1"

definition isSafeInteger :: "int \<Rightarrow> bool" where
  "isSafeInteger n = (- MAX_SAFE_INTEGER \<le> n \<and> n \<le> MAX_SAFE_INTEGER)"

definition digit_char :: "nat \<Rightarrow> char" where
  "digit_char d = (if d < 10 then char_of (48 + d) else char_of (87 + d))"

function digits :: "nat \<Rightarrow> nat \<Rightarrow> string" where
  "digits r n = (if r < 2 \<or> n < r then [digit_char n] else digits r (n div r) @ [digit_char (n mod r)])"
  by pat_completeness auto
termination
  by (relation "measure snd") auto

declare digits.simps [simp del]

text \<open>
  \<^verbatim>\<open>n.toString(radix)\<close>, and \<^verbatim>\<open>String(n)\<close> with radix 10, for an integer \<open>n\<close> that the
  number holds exactly: a minus sign, then the digits of \<open>|n|\<close>. The text of \<^verbatim>\<open>NaN\<close> is
  \<^verbatim>\<open>NaN\<close> in every radix.
\<close>

definition toString_radix :: "int \<Rightarrow> nat \<Rightarrow> string" where
  "toString_radix n r = (if n < 0 then CHR ''-'' # digits r (nat (- n)) else digits r (nat n))"

definition toString_number :: "int option \<Rightarrow> nat \<Rightarrow> string" where
  "toString_number number r = (case number of None \<Rightarrow> ''NaN'' | Some n \<Rightarrow> toString_radix n r)"

text \<open>\<^verbatim>\<open>s.padStart(w, c)\<close> with a one-character pad string.\<close>

definition padStart :: "string \<Rightarrow> nat \<Rightarrow> char \<Rightarrow> string" where
  "padStart s w c = replicate (w - length s) c @ s"

definition upper_char :: "char \<Rightarrow> char" where
  "upper_char c = (let k = (of_char c :: nat) in if 97 \<le> k \<and> k \<le> 122 then char_of (k - 32) else c)"

definition toUpperCase :: "string \<Rightarrow> string" where
  "toUpperCase s = map upper_char s"

text \<open>
  \<^verbatim>\<open>parseInt(s, radix)\<close>: leading white space is skipped (among the characters below
  256: space, tab, line feed, vertical tab, form feed, carriage return and the no-break
  space), a sign is read, for radix 16 a prefix \<^verbatim>\<open>0x\<close> or \<^verbatim>\<open>0X\<close> is dropped, and the
  longest prefix of digits of the radix is the value. No digit at all is \<^verbatim>\<open>NaN\<close>, here
  \<open>None\<close>. Without a radix, \<^verbatim>\<open>parseInt(s)\<close> reads base 16 after such a prefix and base 10
  otherwise; a number given for \<open>s\<close> is first converted to its text.
\<close>

definition digit_val :: "char \<Rightarrow> nat option" where
  "digit_val c =
     (let k = (of_char c :: nat) in
      if 48 \<le> k \<and> k \<le> 57 then Some (k - 48)
      else if 97 \<le> k \<and> k \<le> 122 then Some (k - 87)
      else if 65 \<le> k \<and> k \<le> 90 then Some (k - 55)
      else None)"

definition is_space :: "char \<Rightarrow> bool" where
  "is_space c = (let k = (of_char c :: nat) in k = 32 \<or> (9 \<le> k \<and> k \<le> 13) \<or> k = 160)"

definition is_digit_of :: "nat \<Rightarrow> char \<Rightarrow> bool" where
  "is_digit_of r c = (case digit_val c of None \<Rightarrow> False | Some d \<Rightarrow> d < r)"

fun parse_digits :: "nat \<Rightarrow> string \<Rightarrow> nat \<Rightarrow> nat" where
  "parse_digits r [] acc = acc"
| "parse_digits r (c # cs) acc =
     (if is_digit_of r c then parse_digits r cs (acc * r + the (digit_val c)) else acc)"

definition strip_sign :: "string \<Rightarrow> bool \<times> string" where
  "strip_sign t =
     (case t of
        [] \<Rightarrow> (False, [])
      | c # cs \<Rightarrow>
          if (of_char c :: nat) = 45 then (True, cs)
          else if (of_char c :: nat) = 43 then (False, cs)
          else (False, t))"

definition strip_hex_prefix :: "nat \<Rightarrow> string \<Rightarrow> string" where
  "strip_hex_prefix r u =
     (case u of
        a # b # rest \<Rightarrow>
          if r = 16 \<and> (of_char a :: nat) = 48 \<and> ((of_char b :: nat) = 120 \<or> (of_char b :: nat) = 88)
          then rest else u
      | _ \<Rightarrow> u)"

definition parseInt :: "string \<Rightarrow> nat \<Rightarrow> int option" where
  "parseInt s r =
     (let (neg, u) = strip_sign (dropWhile is_space s);
          v = strip_hex_prefix r u
      in case v of
           [] \<Rightarrow> None
         | c # cs \<Rightarrow>
             if is_digit_of r c
             then Some ((if neg then - 1 else 1) * int (parse_digits r v 0))
             else None)"

definition has_hex_prefix :: "string \<Rightarrow> bool" where
  "has_hex_prefix u =
     (case u of
        a # b # rest \<Rightarrow>
          (of_char a :: nat) = 48 \<and> ((of_char b :: nat) = 120 \<or> (of_char b :: nat) = 88)
      | _ \<Rightarrow> False)"

definition parseInt_default :: "string \<Rightarrow> int option" where
  "parseInt_default s =
     (let (neg, u) = strip_sign (dropWhile is_space s)
      in parseInt s (if has_hex_prefix u then 16 else 10))"

subsection \<open>\<^verbatim>\<open>formatNumber\<close> of \<^verbatim>\<open>frontend/app.js\<close>\<close>

text \<open>
  \<^verbatim>\<open>
  function formatNumber(num, format, bits = 8) {
      const number = parseInt(num);
      switch(format) {
          case 'binary':      return number.toString(2).padStart(bits, '0');
          case 'hexadecimal': const hexDigits = Math.ceil(bits / 4);
                              return number.toString(16).toUpperCase().padStart(hexDigits, '0');
          case 'decimal':
          default:            return number.toString();
      }
  }
  \<close>
  The argument \<open>num\<close> is an element of the backend's \<^verbatim>\<open>numbers\<close> array, an integer that
  the number holds exactly; \<^verbatim>\<open>parseInt\<close> converts it to its decimal text and reads that
  text. \<open>bits\<close> is a natural number; \<^verbatim>\<open>padStart\<close> raises a \<^verbatim>\<open>RangeError\<close> only for a width
  beyond the longest string of the engine, far above the widths of the theorems, which
  are at most 53. The function has no \<^verbatim>\<open>throw\<close> and no range check.
\<close>

definition formatNumber :: "int \<Rightarrow> string \<Rightarrow> nat \<Rightarrow> string" where
  "formatNumber num format bits =
     (let number = parseInt_default (toString_radix num 10) in
      if format = ''binary'' then padStart (toString_number number 2) bits (CHR ''0'')
      else if format = ''hexadecimal'' then
        (let hexDigits = (bits + 3) div 4
         in padStart (toUpperCase (toString_number number 16)) hexDigits (CHR ''0''))
      else toString_number number 10)"

subsection \<open>\<^verbatim>\<open>formatNumber\<close> of \<^verbatim>\<open>unnamed/part_001\<close> and \<^verbatim>\<open>frontend/assets/app.js\<close>\<close>

text \<open>
  \<^verbatim>\<open>
  function formatNumber(number, numBits) {
    const n = Number(number);
    const maxValue = Math.pow(2, numBits) - 1;
    const width = maxValue.toString().length;
    return String(n).padStart(width, '0');
  }
  \<close>
  The decimal string, padded to the width of the largest value of the bit width.
  \<open>number\<close> is an integer that the number holds exactly, which \<^verbatim>\<open>Number\<close> returns as it
  is. \<^verbatim>\<open>Math.pow(2, numBits) - 1\<close> is exact, and its text plain digits, for \<open>numBits\<close> up
  to 53, which contains every bit width that a page allows; the theorems are stated for
  these widths.
\<close>

definition formatNumber_padded :: "int \<Rightarrow> nat \<Rightarrow> string" where
  "formatNumber_padded number numBits =
     (let n = number;
          maxValue = 2 ^ numBits - 1;
          width = length (toString_radix maxValue 10)
      in padStart (toString_radix n 10) width (CHR ''0''))"

subsection \<open>The formatting inside \<^verbatim>\<open>displayResults\<close> of \<^verbatim>\<open>unnamed/part_003\<close>\<close>

text \<open>
  \<^verbatim>\<open>
  switch (format) {
      case 'binary':
          const numBits = parseInt(document.getElementById('num-bits').value);
          formattedNumber = number.toString(2).padStart(numBits, '0');
          break;
      case 'hex':
          formattedNumber = '0x' + number.toString(16).toUpperCase();
          break;
      default:
          formattedNumber = number.toString();
  }
  \<close>
  for each \<open>number\<close> of the results; \<open>numBits\<close> is the width read from the field.
\<close>

definition displayResults_item :: "int \<Rightarrow> string \<Rightarrow> nat \<Rightarrow> string" where
  "displayResults_item number format numBits =
     (if format = ''binary'' then padStart (toString_radix number 2) numBits (CHR ''0'')
      else if format = ''hex'' then ''0x'' @ toUpperCase (toString_radix number 16)
      else toString_radix number 10)"


section \<open>The local simulation of \<^verbatim>\<open>unnamed/part_003\<close>\<close>

text \<open>
  \<^verbatim>\<open>
  const results = [];
  for (let i = 0; i < numSamples; i++) {
      let quantumNumber = 0;
      for (let bit = 0; bit < numBits; bit++) {
          if (Math.random() < 0.5) { quantumNumber |= (1 << bit); }
      }
      results.push(quantumNumber);
  }
  \<close>
  The bitwise operators of JavaScript work on 32-bit integers: \<^verbatim>\<open>1 << bit\<close> shifts by
  \<open>bit mod 32\<close>, and the result of \<^verbatim>\<open>|=\<close> is read back as a signed 32-bit value. So
  \<open>quantumNumber\<close> is a \<open>32 word\<close>, pushed onto the results as \<open>sint\<close>.
  \<^verbatim>\<open>Math.random\<close> is the sequence \<open>random\<close> of its successive results: the draw for bit
  \<open>bit\<close> of sample \<open>i\<close> is call number \<open>i * numBits + bit\<close>.
\<close>

definition measure_qubits :: "(nat \<Rightarrow> real) \<Rightarrow> nat \<Rightarrow> nat \<Rightarrow> 32 word" where
  "measure_qubits random k0 numBits =
     foldl (\<lambda>quantumNumber bit.
              if random (k0 + bit) < 1 / 2 then quantumNumber OR push_bit (bit mod 32) 1
              else quantumNumber)
       0 [0..<numBits]"

definition simulateQuantumCircuit :: "(nat \<Rightarrow> real) \<Rightarrow> nat \<Rightarrow> nat \<Rightarrow> int list" where
  "simulateQuantumCircuit random numBits numSamples =
     map (\<lambda>i. sint (measure_qubits random (i * numBits) numBits)) [0..<numSamples]"

text \<open>A random source whose every draw is below one half: each bit is set.\<close>

definition every_draw_low :: "nat \<Rightarrow> real" where
  "every_draw_low k = 0"


section \<open>The distribution chart\<close>

text \<open>
  \<^verbatim>\<open>renderDistributionGraph(numbers, numBits)\<close> exists in two versions: the one of
  \<^verbatim>\<open>frontend/assets/app.js\<close> and the later one of \<^verbatim>\<open>unnamed/part_001\<close> (the file that
  calls itself \<^verbatim>\<open>frontend-v2.0-sync.js\<close>). Both first convert every element with
  \<^verbatim>\<open>Number(x)\<close>; the model takes the array after that conversion. An element is then an
  integer, or one of the non-finite numbers; the generated values are integers, and
  fractional values are outside the model.

  Both versions start with
  \<^verbatim>\<open>const bits = parseInt(numBits, 10); if (isNaN(bits) || bits < 1) return;\<close>
  and the handler passes the integer it has validated, so \<open>numBits\<close> is an \<open>int\<close>. The
  canvas element that the function looks up is taken to be on the page. The result
  \<open>None\<close> is the early \<^verbatim>\<open>return\<close>; otherwise the result is the pair of \<open>labels\<close> and
  \<open>counts\<close> handed to the chart library.
\<close>

datatype jsnum = NaN | Fin int | PosInf | NegInf

definition MAX_SAMPLES :: int where
  "MAX_SAMPLES = 5000"

definition MAX_BITS :: int where
  "MAX_BITS = 16"

definition BUCKET_THRESHOLD_BITS :: int where
  "BUCKET_THRESHOLD_BITS = 12"

text \<open>\<^verbatim>\<open>1 << bits\<close>: a 32-bit shift by \<open>bits mod 32\<close>, read back as a signed value.\<close>

definition shl1 :: "int \<Rightarrow> int" where
  "shl1 bits = sint (push_bit (nat (bits mod 32)) (1 :: 32 word))"

text \<open>\<^verbatim>\<open>numbers.map(x => Number(x)).filter(x => Number.isFinite(x))\<close>\<close>

fun finite_values :: "jsnum list \<Rightarrow> int list" where
  "finite_values [] = []"
| "finite_values (Fin v # xs) = v # finite_values xs"
| "finite_values (x # xs) = finite_values xs"

text \<open>
  \<^verbatim>\<open>counts[i]++\<close> at an index inside the array. Both versions only reach it with such an
  index: behind the range check in the exact branch, behind the clamp in the other.
\<close>

definition inc :: "nat list \<Rightarrow> nat \<Rightarrow> nat list" where
  "inc counts i = counts[i := counts ! i + 1]"

text \<open>
  \<^verbatim>\<open>
  const idx = Math.floor((n / maxValue) * (BUCKETS - 1));
  counts[Math.max(0, Math.min(BUCKETS - 1, idx))]++;
  \<close>
  with \<open>BUCKETS = 256\<close>. The quotient is evaluated exactly here: \<open>idx\<close> is
  \<open>(n * 255) div maxValue\<close>, where \<open>div\<close> rounds down as \<^verbatim>\<open>Math.floor\<close> does; for the
  integers and the bit widths of the pages the double-precision value has the same
  floor. A division
  by \<open>maxValue = 0\<close> is infinite or \<^verbatim>\<open>NaN\<close> in JavaScript: an infinite index is clamped
  to the nearest end, and \<^verbatim>\<open>counts[NaN]++\<close> changes no element of the array (\<open>None\<close>).
\<close>

definition bucket_slot :: "int \<Rightarrow> int \<Rightarrow> nat option" where
  "bucket_slot n maxValue =
     (if maxValue = 0
      then (if n = 0 then None else if 0 < n then Some 255 else Some 0)
      else Some (nat (max 0 (min 255 ((n * 255) div maxValue)))))"

text \<open>
  \<^verbatim>\<open>
  const from = Math.round((i / BUCKETS) * maxValue);
  const to = Math.round(((i + 1) / BUCKETS) * maxValue);
  return `${from}-${to}`;
  \<close>
  where the source separates the two numbers with an en dash (the bytes E2 80 93 of
  UTF-8). \<^verbatim>\<open>Math.round(x)\<close> is the floor of \<open>x + 1/2\<close>.
\<close>

definition round_scaled :: "int \<Rightarrow> int \<Rightarrow> int" where
  "round_scaled i maxValue = (2 * i * maxValue + 256) div 512"

definition en_dash :: string where
  "en_dash = [CHR 0xE2, CHR 0x80, CHR 0x93]"

definition range_label :: "nat \<Rightarrow> int \<Rightarrow> string" where
  "range_label i maxValue =
     toString_radix (round_scaled (int i) maxValue) 10 @ en_dash
       @ toString_radix (round_scaled (int i + 1) maxValue) 10"

subsection \<open>The version of \<^verbatim>\<open>unnamed/part_001\<close>\<close>

text \<open>
  \<^verbatim>\<open>
  const nums = numbers.map(x => Number(x)).filter(x => Number.isFinite(x));
  const maxValue = (1 << bits) - 1;
  if (bits <= BUCKET_THRESHOLD_BITS && maxValue <= 4096) {
    counts = new Array(maxValue + 1).fill(0);
    nums.forEach(n => { if (n >= 0 && n <= maxValue) counts[n]++; });
    labels = counts.map((_, i) => String(i));
  } else {
    const BUCKETS = 256;
    counts = new Array(BUCKETS).fill(0);
    nums.forEach(n => {
      if (n < 0 || n > maxValue || !Number.isFinite(n)) return;
      const idx = Math.floor((n / maxValue) * (BUCKETS - 1));
      counts[Math.max(0, Math.min(BUCKETS - 1, idx))]++;
    });
    labels = counts.map((_, i) => ... );
  }
  \<close>
\<close>

definition count_exact :: "int \<Rightarrow> nat list \<Rightarrow> int \<Rightarrow> nat list" where
  "count_exact maxValue counts n =
     (if 0 \<le> n \<and> n \<le> maxValue then inc counts (nat n) else counts)"

definition count_bucket :: "int \<Rightarrow> nat list \<Rightarrow> int \<Rightarrow> nat list" where
  "count_bucket maxValue counts n =
     (if n < 0 \<or> maxValue < n then counts
      else case bucket_slot n maxValue of None \<Rightarrow> counts | Some i \<Rightarrow> inc counts i)"

definition renderDistributionGraph :: "jsnum list \<Rightarrow> int \<Rightarrow> (string list \<times> nat list) option" where
  "renderDistributionGraph numbers numBits =
     (let bits = numBits in
      if bits < 1 then None
      else
        let nums = finite_values numbers;
            maxValue = shl1 bits - 1
        in if bits \<le> BUCKET_THRESHOLD_BITS \<and> maxValue \<le> 4096
           then
             (let counts = foldl (count_exact maxValue) (replicate (nat (maxValue + 1)) 0) nums;
                  labels = map (\<lambda>i. toString_radix (int i) 10) [0..<length counts]
              in Some (labels, counts))
           else
             (let counts = foldl (count_bucket maxValue) (replicate 256 0) nums;
                  labels = map (\<lambda>i. range_label i maxValue) [0..<length counts]
              in Some (labels, counts)))"

subsection \<open>The version of \<^verbatim>\<open>frontend/assets/app.js\<close>\<close>

text \<open>
  \<^verbatim>\<open>
  const rawNumbers = numbers.map(x => Number(x));
  const maxValue = (1 << bits) - 1;
  if (bits <= 12 && maxValue <= 4096) {
      counts = new Array(maxValue + 1).fill(0);
      rawNumbers.forEach(n => {
          if (Number.isFinite(n) && n >= 0 && n <= maxValue) counts[n]++;
      });
      labels = Array.from({ length: maxValue + 1 }, (_, i) => String(i));
  } else {
      const BUCKETS = 256;
      counts = new Array(BUCKETS).fill(0);
      rawNumbers.forEach(n => {
          if (!Number.isFinite(n)) return;
          const idx = Math.floor((n / maxValue) * (BUCKETS - 1));
          counts[Math.max(0, Math.min(BUCKETS - 1, idx))]++;
      });
      labels = counts.map((_, i) => ... );
  }
  \<close>
  The exact branch checks the range of every value; the bucket branch checks only that
  the value is finite.
\<close>

definition count_exact_assets :: "int \<Rightarrow> nat list \<Rightarrow> jsnum \<Rightarrow> nat list" where
  "count_exact_assets maxValue counts n =
     (case n of
        Fin v \<Rightarrow> if 0 \<le> v \<and> v \<le> maxValue then inc counts (nat v) else counts
      | _ \<Rightarrow> counts)"

definition count_bucket_assets :: "int \<Rightarrow> nat list \<Rightarrow> jsnum \<Rightarrow> nat list" where
  "count_bucket_assets maxValue counts n =
     (case n of
        Fin v \<Rightarrow> (case bucket_slot v maxValue of None \<Rightarrow> counts | Some i \<Rightarrow> inc counts i)
      | _ \<Rightarrow> counts)"

definition renderDistributionGraph_assets ::
    "jsnum list \<Rightarrow> int \<Rightarrow> (string list \<times> nat list) option" where
  "renderDistributionGraph_assets numbers numBits =
     (let bits = numBits in
      if bits < 1 then None
      else
        let rawNumbers = numbers;
            maxValue = shl1 bits - 1
        in if bits \<le> 12 \<and> maxValue \<le> 4096
           then
             (let counts = foldl (count_exact_assets maxValue) (replicate (nat (maxValue + 1)) 0) rawNumbers;
                  labels = map (\<lambda>i. toString_radix (int i) 10) [0..<nat (maxValue + 1)]
              in Some (labels, counts))
           else
             (let counts = foldl (count_bucket_assets maxValue) (replicate 256 0) rawNumbers;
                  labels = map (\<lambda>i. range_label i maxValue) [0..<length counts]
              in Some (labels, counts)))"

subsection \<open>What the histogram claims speak of\<close>

text \<open>
  A value is in range when it is finite and lies between 0 and \<open>maxValue\<close>; the bucket of
  a value is \<open>floor(value / maxValue * 255)\<close> clamped to \<open>[0, 255]\<close>.
\<close>

definition in_range :: "int \<Rightarrow> jsnum \<Rightarrow> bool" where
  "in_range maxValue x = (case x of Fin v \<Rightarrow> 0 \<le> v \<and> v \<le> maxValue | _ \<Rightarrow> False)"

definition count_in_range :: "jsnum list \<Rightarrow> int \<Rightarrow> nat" where
  "count_in_range numbers maxValue = length (filter (in_range maxValue) numbers)"

definition clamped_bucket :: "int \<Rightarrow> int \<Rightarrow> nat" where
  "clamped_bucket maxValue v = nat (max 0 (min 255 ((v * 255) div maxValue)))"


definition finite_in_bucket :: "int \<Rightarrow> nat \<Rightarrow> jsnum \<Rightarrow> bool" where
  "finite_in_bucket maxValue i x =
     (case x of Fin v \<Rightarrow> clamped_bucket maxValue v = i | _ \<Rightarrow> False)"


section \<open>JavaScript values and the state of a page\<close>

text \<open>
  A backend payload is whatever \<^verbatim>\<open>JSON.parse\<close> returns; \<open>Undefined\<close> is the value of a
  missing property. Numbers are integers: the generated values are, and no step of the
  model computes with a fractional statistic. An object is the list of its properties,
  each key once.
\<close>

datatype jv =
    Undefined
  | Null
  | Bool bool
  | Num int
  | Str string
  | Arr "jv list"
  | Obj "(string \<times> jv) list"

text \<open>
  What a \<^verbatim>\<open>try\<close> block can catch: an error raised by the engine (reading a property of
  \<^verbatim>\<open>undefined\<close> or \<^verbatim>\<open>null\<close>, calling what is not a function, an invalid array length,
  malformed JSON), or \<^verbatim>\<open>new Error(message)\<close>. The text of an engine's own message
  depends on the engine; a message on the screen is therefore either a known text or a
  prefix followed by the engine's text for an error.
\<close>

datatype js_error = TypeError | RangeError | SyntaxError | Error string

datatype shown = Text string | EngineText string js_error

fun nullish :: "jv \<Rightarrow> bool" where
  "nullish Undefined = True"
| "nullish Null = True"
| "nullish v = False"

fun truthy :: "jv \<Rightarrow> bool" where
  "truthy Undefined = False"
| "truthy Null = False"
| "truthy (Bool b) = b"
| "truthy (Num n) = (n \<noteq> 0)"
| "truthy (Str s) = (s \<noteq> [])"
| "truthy (Arr xs) = True"
| "truthy (Obj kvs) = True"

text \<open>\<^verbatim>\<open>a ?? b\<close> and \<^verbatim>\<open>a || b\<close>\<close>

definition coalesce :: "jv \<Rightarrow> jv \<Rightarrow> jv" where
  "coalesce a b = (if nullish a then b else a)"

definition or_else :: "jv \<Rightarrow> jv \<Rightarrow> jv" where
  "or_else a b = (if truthy a then a else b)"

text \<open>
  \<^verbatim>\<open>x.k\<close> for an \<open>x\<close> that is neither \<^verbatim>\<open>undefined\<close> nor \<^verbatim>\<open>null\<close>. The property names
  the scripts read from a payload are data names (\<^verbatim>\<open>numbers\<close>, \<^verbatim>\<open>statistics\<close>,
  \<^verbatim>\<open>stats\<close>, \<^verbatim>\<open>status\<close>, ...), none of them inherited from a prototype, and
  \<^verbatim>\<open>length\<close>.
\<close>

fun field :: "jv \<Rightarrow> string \<Rightarrow> jv" where
  "field (Obj kvs) k = (case map_of kvs k of None \<Rightarrow> Undefined | Some v \<Rightarrow> v)"
| "field (Arr xs) k = (if k = ''length'' then Num (int (length xs)) else Undefined)"
| "field (Str s) k = (if k = ''length'' then Num (int (length s)) else Undefined)"
| "field v k = Undefined"

text \<open>\<^verbatim>\<open>x?.k\<close>\<close>

definition opt_field :: "jv \<Rightarrow> string \<Rightarrow> jv" where
  "opt_field x k = (if nullish x then Undefined else field x k)"

text \<open>\<^verbatim>\<open>String(v)\<close>, also the conversion inside a template literal.\<close>

fun join :: "string \<Rightarrow> string list \<Rightarrow> string" where
  "join sep [] = []"
| "join sep [x] = x"
| "join sep (x # y # ys) = x @ sep @ join sep (y # ys)"

fun toString_jv :: "jv \<Rightarrow> string" where
  "toString_jv Undefined = ''undefined''"
| "toString_jv Null = ''null''"
| "toString_jv (Bool b) = (if b then ''true'' else ''false'')"
| "toString_jv (Num n) = toString_radix n 10"
| "toString_jv (Str s) = s"
| "toString_jv (Arr xs) = join '','' (map (\<lambda>x. if nullish x then [] else toString_jv x) xs)"
| "toString_jv (Obj kvs) = ''[object Object]''"

text \<open>\<^verbatim>\<open>err.message\<close> and \<^verbatim>\<open>err.message || fallback\<close>, as they appear on the screen.\<close>

fun message_of :: "js_error \<Rightarrow> shown" where
  "message_of (Error m) = Text m"
| "message_of e = EngineText [] e"

fun message_or :: "js_error \<Rightarrow> string \<Rightarrow> shown" where
  "message_or (Error m) fallback = Text (if m = [] then fallback else m)"
| "message_or e fallback = EngineText [] e"

subsection \<open>The state\<close>

text \<open>
  The five pages share their shape: the input fields, the variable \<^verbatim>\<open>lastResponse\<close>
  (\<^verbatim>\<open>null\<close> when the page loads), and what is on the screen. The state also keeps the
  bodies posted to \<^verbatim>\<open>/generate\<close> and the files handed to the browser for download, in
  order. An input field is \<open>None\<close> when the page has no such element. The statistics
  panel maps the id of an element to the value whose rendering it shows; the table and
  the chart are the arguments they were last drawn from. The elements that a script
  writes to are taken to be on the page, and the calls into the DOM and the chart
  library to succeed, except where a handler below takes a drawing function as a
  parameter. The text formatting of the statistics, the meta line and the text of the
  source badge are display only and are not part of the state.
\<close>

datatype table_view = Blank | Skeleton | Rows "jv list" jv | Failure shown

datatype file_content = JsonOf jv | CsvOf "jv list" jv

record page =
  authToken :: "string option"
  isGuestMode :: bool
  baseUrl_value :: string
  numBits_value :: "string option"
  numSamples_value :: "string option"
  numberFormat_value :: "string option"
  lastResponse :: jv
  requests :: "jv list"
  toasts :: "(shown \<times> string) list"
  errorBox :: "shown option"
  statsCard_hidden :: bool
  chartCard_hidden :: bool
  tableCard_hidden :: bool
  sourceBadge_hidden :: bool
  statistics_shown :: "string \<rightharpoonup> jv"
  table_shown :: table_view
  chart_shown :: "(jv list \<times> jv) option"
  downloads :: "(string \<times> file_content) list"

text \<open>\<^verbatim>\<open>showToast(msg, type)\<close>, and the transient \<^verbatim>\<open>showError(msg)\<close> of the assets page.\<close>

definition showToast :: "shown \<Rightarrow> string \<Rightarrow> page \<Rightarrow> page" where
  "showToast msg kind p = p\<lparr>toasts := toasts p @ [(msg, kind)]\<rparr>"

text \<open>
  The call to the backend is the one point where the outside world enters: the
  parameter \<open>backend\<close> of a handler maps the body of the request to the outcome of the
  awaited call, the error it throws or the parsed payload it returns.
\<close>

type_synonym backend = "jv \<Rightarrow> js_error + jv"

subsection \<open>The generate handler of \<^verbatim>\<open>unnamed/part_001\<close>\<close>

text \<open>
  \<^verbatim>\<open>
  function updateStatistics(statsCandidate = {}) {
    const s = statsCandidate || {};
    const statsObj = s.statistics ?? s.stats ?? s;
    const mean = Number(statsObj.mean ?? statsObj?.mean ?? 0);
    const std  = Number(statsObj.std  ?? statsObj?.std  ?? 0);
    const min  = statsObj.min  ?? statsObj?.min ?? 0;
    const max  = statsObj.max  ?? statsObj?.max ?? 0;
    ... el('meanValue').textContent = ... mean.toFixed(2) ...
  }
  \<close>
\<close>

definition updateStatistics :: "jv \<Rightarrow> page \<Rightarrow> page" where
  "updateStatistics statsCandidate p =
     (let s = or_else statsCandidate (Obj []);
          statsObj = coalesce (field s ''statistics'') (coalesce (field s ''stats'') s);
          mean = coalesce (field statsObj ''mean'') (coalesce (opt_field statsObj ''mean'') (Num 0));
          std = coalesce (field statsObj ''std'') (coalesce (opt_field statsObj ''std'') (Num 0));
          minv = coalesce (field statsObj ''min'') (coalesce (opt_field statsObj ''min'') (Num 0));
          maxv = coalesce (field statsObj ''max'') (coalesce (opt_field statsObj ''max'') (Num 0))
      in p\<lparr>statistics_shown :=
             (statistics_shown p)(''meanValue'' \<mapsto> mean, ''stdValue'' \<mapsto> std,
                                  ''minValue'' \<mapsto> minv, ''maxValue'' \<mapsto> maxv)\<rparr>)"

text \<open>
  \<^verbatim>\<open>
  try {
    showSkeletons();
    const data = await generateRandomNumbers(bits, samples);
    if (data.status !== 'success') throw new Error(data.message || 'Generation error');
    lastResponse = data;
    const stats = data.stats ?? data.statistics ?? data;
    updateStatistics(stats);
    updateMeta({ ... });
    renderTable(data.numbers || [], bits);
    renderDistributionGraph(data.numbers || [], bits);
    ...
    showToast(`Generated ${data.num_samples ?? data.numbers?.length ?? 'N/A'} samples (${data.source})`,
              'success', 1800);
  } catch (err) { ... }
  \<close>
  The body of the \<^verbatim>\<open>try\<close> returns the error it stopped at, if any, and the state at
  that moment. \<^verbatim>\<open>renderTable\<close> and \<^verbatim>\<open>renderDistributionGraph\<close> call
  \<^verbatim>\<open>numbers.forEach\<close> and \<^verbatim>\<open>numbers.map\<close>, which only an array has.
\<close>

text \<open>The body \<^verbatim>\<open>{ num_bits, num_samples }\<close> of the request.\<close>

definition generate_request :: "int \<Rightarrow> int \<Rightarrow> jv" where
  "generate_request num_bits num_samples =
     Obj [(''num_bits'', Num num_bits), (''num_samples'', Num num_samples)]"

definition generate_try :: "backend \<Rightarrow> int \<Rightarrow> int \<Rightarrow> page \<Rightarrow> js_error option \<times> page" where
  "generate_try generateRandomNumbers bits samples p =
     (let p1 = p\<lparr>table_shown := Skeleton\<rparr>;
          body = generate_request bits samples;
          p2 = p1\<lparr>requests := requests p1 @ [body]\<rparr>
      in case generateRandomNumbers body of
           Inl err \<Rightarrow> (Some err, p2)
         | Inr data \<Rightarrow>
             if nullish data then (Some TypeError, p2)
             else if field data ''status'' \<noteq> Str ''success''
             then (Some (Error (toString_jv (or_else (field data ''message'') (Str ''Generation error'')))), p2)
             else
               let p3 = p2\<lparr>lastResponse := data\<rparr>;
                   stats = coalesce (field data ''stats'') (coalesce (field data ''statistics'') data);
                   p4 = updateStatistics stats p3
               in case or_else (field data ''numbers'') (Arr []) of
                    Arr numbers \<Rightarrow>
                      (None,
                       showToast
                         (Text (''Generated ''
                            @ toString_jv (coalesce (field data ''num_samples'')
                                (coalesce (opt_field (field data ''numbers'') ''length'') (Str ''N/A'')))
                            @ '' samples ('' @ toString_jv (field data ''source'') @ '')''))
                         ''success''
                         (p4\<lparr>table_shown := Rows numbers (Num bits),
                             chart_shown := Some (numbers, Num bits)\<rparr>))
                  | _ \<Rightarrow> (Some TypeError, p4))"

text \<open>
  \<^verbatim>\<open>
  if (!numBitsEl || !numSamplesEl) return showToast('Missing inputs', 'error');
  let bits = parseInt(numBitsEl.value, 10);
  let samples = parseInt(numSamplesEl.value, 10);
  if (isNaN(bits) || isNaN(samples)) return showToast('Enter valid numbers', 'error');
  if (bits < 1) bits = 1;
  if (bits > MAX_BITS) return showToast(`numBits max ${MAX_BITS}`, 'error');
  if (samples < 1 || samples > MAX_SAMPLES) return showToast(`samples 1..${MAX_SAMPLES}`, 'error');
  try { ... } catch (err) {
    showToast(err.message || 'Generation failed', 'error', 3500);
    resultDisplay.innerHTML = `<div ...>${err.message || 'Generation failed'}</div>`;
  }
  \<close>
  Every check before the \<^verbatim>\<open>try\<close> ends in \<^verbatim>\<open>return showToast(msg, 'error')\<close>: \<open>validate\<close>
  is that prefix of the handler, with the message of the check that stops it, or the
  numbers that go on to the request.
\<close>

definition validate :: "page \<Rightarrow> shown + int \<times> int" where
  "validate p =
     (case (numBits_value p, numSamples_value p) of
        (Some bitsText, Some samplesText) \<Rightarrow>
          (case (parseInt bitsText 10, parseInt samplesText 10) of
             (Some bits0, Some samples) \<Rightarrow>
               let bits = (if bits0 < 1 then 1 else bits0) in
               if bits > MAX_BITS then Inl (Text ''numBits max 16'')
               else if samples < 1 \<or> samples > MAX_SAMPLES then Inl (Text ''samples 1..5000'')
               else Inr (bits, samples)
           | _ \<Rightarrow> Inl (Text ''Enter valid numbers''))
      | _ \<Rightarrow> Inl (Text ''Missing inputs''))"

definition generate_click :: "backend \<Rightarrow> page \<Rightarrow> page" where
  "generate_click generateRandomNumbers p =
     (case validate p of
        Inl msg \<Rightarrow> showToast msg ''error'' p
      | Inr (bits, samples) \<Rightarrow>
          (case generate_try generateRandomNumbers bits samples p of
             (None, p') \<Rightarrow> p'
           | (Some err, p') \<Rightarrow>
               (showToast (message_or err ''Generation failed'') ''error'' p')
                 \<lparr>table_shown := Failure (message_or err ''Generation failed'')\<rparr>))"

subsection \<open>The generate handler of \<^verbatim>\<open>frontend/assets/app.js\<close>\<close>

text \<open>
  \<^verbatim>\<open>generateRandomNumbers\<close> of this page catches every failure of the call and throws
  one fixed message instead.
\<close>

definition generateRandomNumbers_assets :: "backend \<Rightarrow> backend" where
  "generateRandomNumbers_assets backend body =
     (case backend body of
        Inl error \<Rightarrow>
          Inl (Error ''Failed to generate random numbers. Please ensure the backend server is running.'')
      | Inr data \<Rightarrow> Inr data)"

text \<open>
  \<^verbatim>\<open>
  function updateStatistics(stats = {}) {
      if (meanEl) meanEl.textContent = (stats.mean ?? 0).toFixed(2);
      if (stdEl) stdEl.textContent = (stats.std ?? 0).toFixed(2);
      if (minEl) minEl.textContent = String(stats.min ?? 0);
      if (maxEl) maxEl.textContent = String(stats.max ?? 0);
  }
  \<close>
  Only a number has \<^verbatim>\<open>toFixed\<close>.
\<close>

fun is_number :: "jv \<Rightarrow> bool" where
  "is_number (Num n) = True"
| "is_number v = False"

definition updateStatistics_assets :: "jv \<Rightarrow> page \<Rightarrow> js_error option \<times> page" where
  "updateStatistics_assets stats p =
     (let mean = coalesce (field stats ''mean'') (Num 0) in
      if \<not> is_number mean then (Some TypeError, p)
      else
        let p1 = p\<lparr>statistics_shown := (statistics_shown p)(''meanValue'' \<mapsto> mean)\<rparr>;
            std = coalesce (field stats ''std'') (Num 0)
        in if \<not> is_number std then (Some TypeError, p1)
           else
             (None,
              p1\<lparr>statistics_shown :=
                   (statistics_shown p1)(''stdValue'' \<mapsto> std,
                      ''minValue'' \<mapsto> coalesce (field stats ''min'') (Num 0),
                      ''maxValue'' \<mapsto> coalesce (field stats ''max'') (Num 0))\<rparr>))"

text \<open>
  \<^verbatim>\<open>
  try {
      const result = await generateRandomNumbers(numBits, numSamples);
      lastResponse = result;
      updateSourceIndicator(result.source);
      const numbers = (result.numbers || []).map(x => Number(x));
      renderTable(numbers, numBits);
      updateStatistics(result.statistics || {});
      renderDistributionGraph(numbers, numBits);
  } catch (err) { ... }
  \<close>
\<close>

definition generate_try_assets :: "backend \<Rightarrow> int \<Rightarrow> int \<Rightarrow> page \<Rightarrow> js_error option \<times> page" where
  "generate_try_assets backend numBits numSamples p =
     (let body = generate_request numBits numSamples;
          p1 = p\<lparr>requests := requests p @ [body]\<rparr>
      in case generateRandomNumbers_assets backend body of
           Inl err \<Rightarrow> (Some err, p1)
         | Inr result \<Rightarrow>
             let p2 = p1\<lparr>lastResponse := result\<rparr> in
             if nullish result then (Some TypeError, p2)
             else
               (case or_else (field result ''numbers'') (Arr []) of
                  Arr numbers \<Rightarrow>
                    (case updateStatistics_assets (or_else (field result ''statistics'') (Obj []))
                            (p2\<lparr>table_shown := Rows numbers (Num numBits)\<rparr>) of
                       (Some err, p3) \<Rightarrow> (Some err, p3)
                     | (None, p3) \<Rightarrow> (None, p3\<lparr>chart_shown := Some (numbers, Num numBits)\<rparr>))
                | _ \<Rightarrow> (Some TypeError, p2)))"

text \<open>
  \<^verbatim>\<open>
  let numBits = parseInt(numBitsEl.value, 10);
  let numSamples = parseInt(numSamplesEl.value, 10);
  if (isNaN(numBits) || isNaN(numSamples)) { showError('Please enter valid numeric values.'); return; }
  // enforce limits
  if (numBits < 1) numBits = 1;
  if (numBits > MAX_BITS) { showError(`numBits too large for safe visualization. ...`); return; }
  if (numSamples < 1 || numSamples > MAX_SAMPLES) { showError(`Quantity must be between ...`); return; }
  \<close>
\<close>

definition validate_assets :: "page \<Rightarrow> shown + int \<times> int" where
  "validate_assets p =
     (case (numBits_value p, numSamples_value p) of
        (Some bitsText, Some samplesText) \<Rightarrow>
          (case (parseInt bitsText 10, parseInt samplesText 10) of
             (Some numBits0, Some numSamples) \<Rightarrow>
               let numBits = (if numBits0 < 1 then 1 else numBits0) in
               if numBits > MAX_BITS
               then Inl (Text ''numBits too large for safe visualization. Max allowed is 16.'')
               else if numSamples < 1 \<or> numSamples > MAX_SAMPLES
               then Inl (Text ''Quantity must be between 1 and 5000'')
               else Inr (numBits, numSamples)
           | _ \<Rightarrow> Inl (Text ''Please enter valid numeric values.''))
      | _ \<Rightarrow> Inl (Text ''Missing input elements''))"

definition generate_click_assets :: "backend \<Rightarrow> page \<Rightarrow> page" where
  "generate_click_assets backend p =
     (case validate_assets p of
        Inl msg \<Rightarrow> showToast msg ''error'' p
      | Inr (numBits, numSamples) \<Rightarrow>
          (case generate_try_assets backend numBits numSamples p of
             (None, p') \<Rightarrow> p'
           | (Some err, p') \<Rightarrow>
               (showToast (message_or err ''Generation failed.'') ''error'' p')
                 \<lparr>table_shown := Failure (message_of err)\<rparr>))"

subsection \<open>The generate handler of \<^verbatim>\<open>frontend/app.js\<close>\<close>

text \<open>
  \<^verbatim>\<open>
  if (!getAuthToken() && !isGuestMode) { showToast('Please login ...', 'error'); return; }
  let num_bits = numBitsEl ? parseInt(numBitsEl.value || 8, 10) : 8;
  let num_samples = numSamplesEl ? parseInt(numSamplesEl.value || 10, 10) : 10;
  let format = formatEl ? formatEl.value || 'decimal' : 'decimal';
  if (isNaN(num_bits) || num_bits < 1 || num_bits > 16) {
      showToast('Number of bits must be between 1 and 16', 'error'); return; }
  if (isNaN(num_samples) || num_samples < 1 || num_samples > 5000) {
      showToast('Number of samples must be between 1 and 5000', 'error'); return; }
  try {
      const res = await apiPost('/generate', { num_bits, num_samples, format }, false);
      lastResponse = res;
      renderGenerationResult(res, format, num_bits);
      const count = res.numbers ? res.numbers.length : 0;
      showToast(`Generated ${count} ${getFormatDisplayName(format).toLowerCase()} numbers from ${res.source || 'unknown'}`, 'success');
  } catch(err) {
      showToast('Generation failed: ' + (err.message || err), 'error', 6000);
  }
  \<close>
  \<^verbatim>\<open>renderGenerationResult\<close> is called here and defined in none of the source files: it is
  a parameter, the error it throws on its arguments, if any. As before, \<open>validate_app\<close> is
  the prefix of the handler before the \<^verbatim>\<open>try\<close>.
\<close>

definition field_int :: "string option \<Rightarrow> int \<Rightarrow> int option" where
  "field_int element fallback =
     (case element of
        None \<Rightarrow> Some fallback
      | Some v \<Rightarrow> if v = [] then Some fallback else parseInt v 10)"

definition getFormatDisplayName_lower :: "string \<Rightarrow> string" where
  "getFormatDisplayName_lower format =
     (if format = ''binary'' then ''binary''
      else if format = ''hexadecimal'' then ''hexadecimal''
      else ''decimal'')"

fun failure_text :: "js_error \<Rightarrow> shown" where
  "failure_text (Error m) = Text (''Generation failed: '' @ (if m = [] then ''Error'' else m))"
| "failure_text e = EngineText ''Generation failed: '' e"

definition generate_request_app :: "int \<Rightarrow> int \<Rightarrow> string \<Rightarrow> jv" where
  "generate_request_app num_bits num_samples format =
     Obj [(''num_bits'', Num num_bits), (''num_samples'', Num num_samples), (''format'', Str format)]"

text \<open>\<^verbatim>\<open>getAuthToken()\<close> as a condition: the token is there and not empty.\<close>

definition has_token :: "page \<Rightarrow> bool" where
  "has_token p = (case authToken p of None \<Rightarrow> False | Some t \<Rightarrow> t \<noteq> [])"

definition generate_try_app ::
    "(jv \<Rightarrow> string \<Rightarrow> int \<Rightarrow> js_error option) \<Rightarrow> backend \<Rightarrow> int \<Rightarrow> int \<Rightarrow> string \<Rightarrow> page
      \<Rightarrow> js_error option \<times> page" where
  "generate_try_app renderGenerationResult apiPost num_bits num_samples format p =
     (let body = generate_request_app num_bits num_samples format;
          p1 = p\<lparr>requests := requests p @ [body]\<rparr>
      in case apiPost body of
           Inl err \<Rightarrow> (Some err, p1)
         | Inr res \<Rightarrow>
             let p2 = p1\<lparr>lastResponse := res\<rparr> in
             (case renderGenerationResult res format num_bits of
                Some err \<Rightarrow> (Some err, p2)
              | None \<Rightarrow>
                  if nullish res then (Some TypeError, p2)
                  else
                    let numbers = field res ''numbers'';
                        count = (if truthy numbers then field numbers ''length'' else Num 0)
                    in (None,
                        showToast
                          (Text (''Generated '' @ toString_jv count @ '' ''
                             @ getFormatDisplayName_lower format @ '' numbers from ''
                             @ toString_jv (or_else (field res ''source'') (Str ''unknown''))))
                          ''success'' p2)))"

definition validate_app :: "page \<Rightarrow> shown + int \<times> int \<times> string" where
  "validate_app p =
     (if \<not> has_token p \<and> \<not> isGuestMode p
      then Inl (Text ''Please login or continue as guest to generate numbers'')
      else
        let num_bits = field_int (numBits_value p) 8;
            num_samples = field_int (numSamples_value p) 10;
            format = (case numberFormat_value p of
                        None \<Rightarrow> ''decimal''
                      | Some v \<Rightarrow> if v = [] then ''decimal'' else v)
        in case num_bits of
             None \<Rightarrow> Inl (Text ''Number of bits must be between 1 and 16'')
           | Some b \<Rightarrow>
               if b < 1 \<or> b > 16 then Inl (Text ''Number of bits must be between 1 and 16'')
               else
                 (case num_samples of
                    None \<Rightarrow> Inl (Text ''Number of samples must be between 1 and 5000'')
                  | Some s \<Rightarrow>
                      if s < 1 \<or> s > 5000
                      then Inl (Text ''Number of samples must be between 1 and 5000'')
                      else Inr (b, s, format)))"

definition generate_click_app ::
    "(jv \<Rightarrow> string \<Rightarrow> int \<Rightarrow> js_error option) \<Rightarrow> backend \<Rightarrow> page \<Rightarrow> page" where
  "generate_click_app renderGenerationResult apiPost p =
     (case validate_app p of
        Inl msg \<Rightarrow> showToast msg ''error'' p
      | Inr (num_bits, num_samples, format) \<Rightarrow>
          (case generate_try_app renderGenerationResult apiPost num_bits num_samples format p of
             (None, p') \<Rightarrow> p'
           | (Some err, p') \<Rightarrow> showToast (failure_text err) ''error'' p'))"

subsection \<open>The generate handler of \<^verbatim>\<open>frontend/script.js\<close>\<close>

text \<open>
  \<^verbatim>\<open>
  hideError();
  const num_bits = Number(el('numBits').value);
  const num_samples = Number(el('numSamples').value);
  if (!(num_bits >= 1 && num_bits <= 16)) return showError('num_bits must be 1-16');
  if (!(num_samples >= 1 && num_samples <= 1000)) return showError('num_samples must be 1-1000');
  try {
    const data = await api('/generate', { method: 'POST', body: JSON.stringify({ num_bits, num_samples }) });
    lastResponse = data;
    renderStats(data.statistics, data.source);
    renderTable(data.numbers, data.parameters.num_bits);
    renderHistogram(data.numbers, data.parameters.max_value);
  } catch (e) {
    showError(e.message);
  }
  \<close>
  (the two messages have an en dash where this excerpt has a hyphen). The handler takes
  the two numbers that \<^verbatim>\<open>Number(...)\<close> makes of the fields. \<^verbatim>\<open>renderStats\<close> reads
  \<^verbatim>\<open>stats.mean\<close> first, \<^verbatim>\<open>renderTable\<close> calls \<^verbatim>\<open>numbers.map\<close>.
  \<^verbatim>\<open>renderHistogram\<close> allocates \<^verbatim>\<open>new Array(maxValue + 1)\<close> and builds a chart of the
  library; whether that raises depends on the engine and the library, so it is a
  parameter: the error raised on the two arguments, if any.
\<close>

definition ge_num :: "jsnum \<Rightarrow> int \<Rightarrow> bool" where
  "ge_num x c = (case x of Fin v \<Rightarrow> c \<le> v | PosInf \<Rightarrow> True | _ \<Rightarrow> False)"

definition le_num :: "jsnum \<Rightarrow> int \<Rightarrow> bool" where
  "le_num x c = (case x of Fin v \<Rightarrow> v \<le> c | NegInf \<Rightarrow> True | _ \<Rightarrow> False)"

text \<open>\<^verbatim>\<open>JSON.stringify\<close> writes a number that is not finite as \<^verbatim>\<open>null\<close>.\<close>

definition json_of_num :: "jsnum \<Rightarrow> jv" where
  "json_of_num x = (case x of Fin v \<Rightarrow> Num v | _ \<Rightarrow> Null)"

definition process_script :: "(jv \<Rightarrow> jv \<Rightarrow> js_error option) \<Rightarrow> jv \<Rightarrow> page \<Rightarrow> js_error option \<times> page" where
  "process_script renderHistogram data p =
     (if nullish data then (Some TypeError, p)
      else
        let stats = field data ''statistics'' in
        if nullish stats then (Some TypeError, p)
        else
          let p1 = p\<lparr>statistics_shown :=
                        (statistics_shown p)(''statMean'' \<mapsto> field stats ''mean'',
                           ''statStd'' \<mapsto> field stats ''std'', ''statMin'' \<mapsto> field stats ''min'',
                           ''statMax'' \<mapsto> field stats ''max'', ''statRange'' \<mapsto> field stats ''range''),
                      statsCard_hidden := False\<rparr>;
              parameters = field data ''parameters''
          in if nullish parameters then (Some TypeError, p1)
             else
               (case field data ''numbers'' of
                  Arr numbers \<Rightarrow>
                    let p2 = p1\<lparr>table_shown := Rows numbers (field parameters ''num_bits''),
                                tableCard_hidden := False\<rparr>
                    in (case renderHistogram (Arr numbers) (field parameters ''max_value'') of
                          Some err \<Rightarrow> (Some err, p2)
                        | None \<Rightarrow>
                            (None,
                             p2\<lparr>chart_shown := Some (numbers, field parameters ''max_value''),
                                chartCard_hidden := False\<rparr>))
                | _ \<Rightarrow> (Some TypeError, p1)))"

definition validate_script :: "jsnum \<Rightarrow> jsnum \<Rightarrow> shown option" where
  "validate_script num_bits num_samples =
     (if \<not> (ge_num num_bits 1 \<and> le_num num_bits 16)
      then Some (Text (''num_bits must be 1'' @ en_dash @ ''16''))
      else if \<not> (ge_num num_samples 1 \<and> le_num num_samples 1000)
      then Some (Text (''num_samples must be 1'' @ en_dash @ ''1000''))
      else None)"

definition request_body :: "jsnum \<Rightarrow> jsnum \<Rightarrow> jv" where
  "request_body num_bits num_samples =
     Obj [(''num_bits'', json_of_num num_bits), (''num_samples'', json_of_num num_samples)]"

definition genBtn_click ::
    "(jv \<Rightarrow> jv \<Rightarrow> js_error option) \<Rightarrow> backend \<Rightarrow> jsnum \<Rightarrow> jsnum \<Rightarrow> page \<Rightarrow> page" where
  "genBtn_click renderHistogram api num_bits num_samples p =
     (let p0 = p\<lparr>errorBox := None\<rparr> in
      case validate_script num_bits num_samples of
        Some msg \<Rightarrow> p0\<lparr>errorBox := Some msg\<rparr>
      | None \<Rightarrow>
          let body = request_body num_bits num_samples;
              p1 = p0\<lparr>requests := requests p0 @ [body]\<rparr>
          in case api body of
               Inl e \<Rightarrow> p1\<lparr>errorBox := Some (message_of e)\<rparr>
             | Inr data \<Rightarrow>
                 (case process_script renderHistogram data (p1\<lparr>lastResponse := data\<rparr>) of
                    (None, p') \<Rightarrow> p'
                  | (Some e, p') \<Rightarrow> p'\<lparr>errorBox := Some (message_of e)\<rparr>))"

subsection \<open>Clear and the two downloads of \<^verbatim>\<open>unnamed/part_002\<close>\<close>

text \<open>
  \<^verbatim>\<open>
  el('clearBtn').addEventListener('click', () => {
    hideError();
    statsCard.classList.add('hidden');
    chartCard.classList.add('hidden');
    tableCard.classList.add('hidden');
    sourceBadge.classList.add('hidden');
    el('numbersBody').innerHTML = '';
    if (chart) chart.destroy();
    lastResponse = null;
  });
  el('downloadJson').addEventListener('click', () => {
    if (!lastResponse) return;
    download('qrng_response.json', JSON.stringify(lastResponse, null, 2));
  });
  el('downloadCsv').addEventListener('click', () => {
    if (!lastResponse) return;
    const numbers = lastResponse.numbers || [];
    const bits = Number(lastResponse.num_bits ?? Number(el('numBits').value));
    const rows = ['index,decimal,binary'];
    numbers.forEach((n, i) => rows.push(...));
    download('qrng_numbers.csv', rows.join('\n'));
  });
  \<close>
  A downloaded file is its name and what it was written from: the response for the JSON
  file; for the CSV file the numbers and the value whose \<^verbatim>\<open>Number(...)\<close> is the width of
  the binary column. An error in the CSV handler is caught by nothing: the handler
  stops and nothing is downloaded.
\<close>

definition clearBtn_click :: "page \<Rightarrow> page" where
  "clearBtn_click p =
     p\<lparr>errorBox := None,
       statsCard_hidden := True,
       chartCard_hidden := True,
       tableCard_hidden := True,
       sourceBadge_hidden := True,
       table_shown := Blank,
       chart_shown := None,
       lastResponse := Null\<rparr>"

definition downloadJson_click :: "page \<Rightarrow> page" where
  "downloadJson_click p =
     (if \<not> truthy (lastResponse p) then p
      else p\<lparr>downloads := downloads p @ [(''qrng_response.json'', JsonOf (lastResponse p))]\<rparr>)"

definition downloadCsv_click :: "page \<Rightarrow> page" where
  "downloadCsv_click p =
     (if \<not> truthy (lastResponse p) then p
      else
        let numbers = or_else (field (lastResponse p) ''numbers'') (Arr []);
            num_bits = field (lastResponse p) ''num_bits''
        in if nullish num_bits \<and> numBits_value p = None then p
           else
             let bits = (if nullish num_bits then Str (the (numBits_value p)) else num_bits)
             in case numbers of
                  Arr ns \<Rightarrow> p\<lparr>downloads := downloads p @ [(''qrng_numbers.csv'', CsvOf ns bits)]\<rparr>
                | _ \<Rightarrow> p)"

subsection \<open>Pages, payloads and backends for the examples\<close>

definition fresh_page :: page where
  "fresh_page =
     \<lparr>authToken = None, isGuestMode = True, baseUrl_value = ''http://127.0.0.1:5000'',
      numBits_value = Some ''8'', numSamples_value = Some ''5'', numberFormat_value = Some ''decimal'',
      lastResponse = Null, requests = [], toasts = [], errorBox = None,
      statsCard_hidden = True, chartCard_hidden = True, tableCard_hidden = True,
      sourceBadge_hidden = True, statistics_shown = Map.empty, table_shown = Blank,
      chart_shown = None, downloads = []\<rparr>"

definition earlier_payload :: jv where
  "earlier_payload =
     Obj [(''status'', Str ''success''), (''numbers'', Arr [Num 7, Num 9]), (''source'', Str ''ANU''),
          (''statistics'', Obj [(''mean'', Num 8), (''std'', Num 1), (''min'', Num 7), (''max'', Num 9)]),
          (''parameters'', Obj [(''num_bits'', Num 8), (''max_value'', Num 255)])]"

definition page_with_result :: page where
  "page_with_result = fresh_page\<lparr>lastResponse := earlier_payload\<rparr>"

text \<open>The payload of the specification's scenario: numbers and nothing else.\<close>

definition bare_payload :: jv where
  "bare_payload = Obj [(''numbers'', Arr [Num 0, Num 255, Num 128, Num 1, Num 254])]"

text \<open>The same numbers with the status that \<^verbatim>\<open>unnamed/part_001\<close> asks for.\<close>

definition bare_payload_ok :: jv where
  "bare_payload_ok =
     Obj [(''status'', Str ''success''), (''numbers'', Arr [Num 0, Num 255, Num 128, Num 1, Num 254])]"

text \<open>A payload that carries its statistics twice, with different values.\<close>

definition double_payload :: jv where
  "double_payload =
     Obj [(''status'', Str ''success''), (''numbers'', Arr [Num 1, Num 3]),
          (''statistics'', Obj [(''mean'', Num 1), (''std'', Num 1), (''min'', Num 1), (''max'', Num 1)]),
          (''stats'', Obj [(''mean'', Num 2), (''std'', Num 2), (''min'', Num 2), (''max'', Num 2)])]"

text \<open>Pages whose fields ask for 20 bits, and for 0 bits.\<close>

definition page_20_bits :: page where
  "page_20_bits = fresh_page\<lparr>numBits_value := Some ''20''\<rparr>"

definition page_0_bits :: page where
  "page_0_bits = fresh_page\<lparr>numBits_value := Some ''0''\<rparr>"

definition returns :: "jv \<Rightarrow> backend" where
  "returns data body = Inr data"

definition fails_with :: "js_error \<Rightarrow> backend" where
  "fails_with err body = Inl err"

definition draws :: "jv \<Rightarrow> jv \<Rightarrow> js_error option" where
  "draws numbers maxValue = None"

definition renders :: "jv \<Rightarrow> string \<Rightarrow> int \<Rightarrow> js_error option" where
  "renders res format num_bits = None"


section \<open>Properties of the formatting functions\<close>

lemma digit_val_digit_char: "d < 36 \<Longrightarrow> digit_val (digit_char d) = Some d"
  by (auto simp: digit_val_def digit_char_def Let_def)

lemma is_digit_of_digit_char: "d < r \<Longrightarrow> r \<le> 36 \<Longrightarrow> is_digit_of r (digit_char d)"
  by (simp add: is_digit_of_def digit_val_digit_char)

lemma digit_val_upper_char: "digit_val (upper_char c) = digit_val c"
  by (auto simp: digit_val_def upper_char_def Let_def)

lemma is_digit_of_upper_char: "is_digit_of r (upper_char c) = is_digit_of r c"
  by (simp add: is_digit_of_def digit_val_upper_char)

lemma upper_char_idem: "upper_char (upper_char c) = upper_char c"
  by (auto simp: upper_char_def Let_def)

lemma toUpperCase_idem: "toUpperCase (toUpperCase s) = toUpperCase s"
  by (simp add: toUpperCase_def upper_char_idem)

lemma digits_all_valid:
  "2 \<le> r \<Longrightarrow> r \<le> 36 \<Longrightarrow> \<forall>c \<in> set (digits r n). is_digit_of r c"
proof (induction r n rule: digits.induct)
  case (1 r n)
  show ?case
  proof (cases "n < r")
    case True
    with "1.prems" show ?thesis
      by (subst digits.simps) (simp add: is_digit_of_digit_char)
  next
    case False
    with "1.prems" have rec: "\<forall>c \<in> set (digits r (n div r)). is_digit_of r c"
      using "1.IH" by simp
    have "n mod r < r" using "1.prems" by simp
    then have "is_digit_of r (digit_char (n mod r))"
      using "1.prems" by (simp add: is_digit_of_digit_char)
    with rec False "1.prems" show ?thesis
      by (subst digits.simps) simp
  qed
qed

lemma digits_nonempty: "digits r n \<noteq> []"
  by (subst digits.simps) simp

lemma parse_digits_snoc:
  "\<forall>c \<in> set xs. is_digit_of r c \<Longrightarrow> is_digit_of r d \<Longrightarrow>
   parse_digits r (xs @ [d]) acc = parse_digits r xs acc * r + the (digit_val d)"
  by (induction xs arbitrary: acc) simp_all

lemma parse_digits_digits:
  "2 \<le> r \<Longrightarrow> r \<le> 36 \<Longrightarrow> parse_digits r (digits r n) 0 = n"
proof (induction r n rule: digits.induct)
  case (1 r n)
  show ?case
  proof (cases "n < r")
    case True
    with "1.prems" show ?thesis
      by (subst digits.simps) (simp add: is_digit_of_digit_char digit_val_digit_char)
  next
    case False
    with "1.prems" have rec: "parse_digits r (digits r (n div r)) 0 = n div r"
      using "1.IH" by simp
    have small: "n mod r < r" using "1.prems" by simp
    have valid: "\<forall>c \<in> set (digits r (n div r)). is_digit_of r c"
      using "1.prems" by (simp add: digits_all_valid)
    have last: "is_digit_of r (digit_char (n mod r))"
      using small "1.prems" by (simp add: is_digit_of_digit_char)
    have "digits r n = digits r (n div r) @ [digit_char (n mod r)]"
      using False "1.prems" by (subst digits.simps) simp
    then have "parse_digits r (digits r n) 0 = (n div r) * r + the (digit_val (digit_char (n mod r)))"
      using parse_digits_snoc [OF valid last, of 0] rec by simp
    also have "the (digit_val (digit_char (n mod r))) = n mod r"
    proof -
      have "n mod r < 36" using small "1.prems"(2) by linarith
      then show ?thesis by (simp add: digit_val_digit_char)
    qed
    finally show ?thesis by simp
  qed
qed

lemma parse_digits_upper: "parse_digits r (toUpperCase s) acc = parse_digits r s acc"
  by (induction s arbitrary: acc)
     (simp_all add: toUpperCase_def is_digit_of_upper_char digit_val_upper_char)

lemma parse_digits_zeros:
  "2 \<le> r \<Longrightarrow> parse_digits r (replicate k (CHR ''0'') @ s) 0 = parse_digits r s 0"
  by (induction k) (simp_all add: is_digit_of_def digit_val_def)

lemma length_digits_le:
  "2 \<le> r \<Longrightarrow> n < r ^ k \<Longrightarrow> 0 < k \<Longrightarrow> length (digits r n) \<le> k"
proof (induction r n arbitrary: k rule: digits.induct)
  case (1 r n)
  show ?case
  proof (cases "n < r")
    case True
    with "1.prems" show ?thesis
      by (subst digits.simps) simp
  next
    case False
    obtain j where k: "k = Suc j" using "1.prems"(3) by (cases k) auto
    have "j \<noteq> 0"
    proof
      assume "j = 0"
      with k "1.prems"(2) have "n < r" by simp
      with False show False by simp
    qed
    then have jpos: "0 < j" by simp
    have "n < r * r ^ j" using "1.prems"(2) k by simp
    then have "n div r < r ^ j"
      using "1.prems"(1) by (simp add: less_mult_imp_div_less mult.commute)
    then have "length (digits r (n div r)) \<le> j"
      using "1.IH" [of j] False "1.prems"(1) jpos by simp
    then show ?thesis
      using False "1.prems"(1) k by (subst digits.simps) simp
  qed
qed

lemma parseInt_of_digit_string:
  assumes "s \<noteq> []" and "\<forall>c \<in> set s. is_digit_of r c" and "r \<le> 16"
  shows "parseInt s r = Some (int (parse_digits r s 0))"
proof -
  obtain c cs where s: "s = c # cs" using assms(1) by (cases s) auto
  have c: "is_digit_of r c" using assms(2) s by simp
  have nospace: "\<not> is_space c"
    using c by (auto simp: is_digit_of_def digit_val_def is_space_def Let_def split: if_splits)
  have nosign: "(of_char c :: nat) \<noteq> 45" "(of_char c :: nat) \<noteq> 43"
    using c by (auto simp: is_digit_of_def digit_val_def Let_def split: if_splits)
  have sign: "strip_sign (dropWhile is_space s) = (False, s)"
    using s nospace nosign by (simp add: strip_sign_def)
  have hex: "strip_hex_prefix r s = s"
  proof (cases cs)
    case Nil
    with s show ?thesis by (simp add: strip_hex_prefix_def)
  next
    case (Cons b rest)
    have "is_digit_of r b" using assms(2) s Cons by simp
    then have "(of_char b :: nat) \<noteq> 120" "(of_char b :: nat) \<noteq> 88"
      using assms(3) by (auto simp: is_digit_of_def digit_val_def Let_def split: if_splits)
    with s Cons show ?thesis by (simp add: strip_hex_prefix_def)
  qed
  show ?thesis
    using sign hex s c by (simp add: parseInt_def)
qed

lemma parseInt_padded_digits:
  assumes "2 \<le> r" and "r \<le> 16"
  shows "parseInt (padStart (digits r n) w (CHR ''0'')) r = Some (int n)"
    and "parseInt (padStart (toUpperCase (digits r n)) w (CHR ''0'')) r = Some (int n)"
proof -
  have r36: "r \<le> 36" using assms by simp
  have zero: "is_digit_of r (CHR ''0'')"
    using assms by (simp add: is_digit_of_def digit_val_def)
  have valid: "\<forall>c \<in> set (digits r n). is_digit_of r c"
    using assms r36 by (simp add: digits_all_valid)
  have validU: "\<forall>c \<in> set (toUpperCase (digits r n)). is_digit_of r c"
    using valid by (simp add: toUpperCase_def is_digit_of_upper_char)
  have ne: "padStart (digits r n) w (CHR ''0'') \<noteq> []"
       "padStart (toUpperCase (digits r n)) w (CHR ''0'') \<noteq> []"
    by (simp_all add: padStart_def digits_nonempty toUpperCase_def)
  have all1: "\<forall>c \<in> set (padStart (digits r n) w (CHR ''0'')). is_digit_of r c"
    using valid zero by (auto simp: padStart_def)
  have all2: "\<forall>c \<in> set (padStart (toUpperCase (digits r n)) w (CHR ''0'')). is_digit_of r c"
    using validU zero by (auto simp: padStart_def)
  show "parseInt (padStart (digits r n) w (CHR ''0'')) r = Some (int n)"
    using parseInt_of_digit_string [OF ne(1) all1 assms(2)] assms r36
    by (simp add: padStart_def parse_digits_zeros parse_digits_digits)
  show "parseInt (padStart (toUpperCase (digits r n)) w (CHR ''0'')) r = Some (int n)"
    using parseInt_of_digit_string [OF ne(2) all2 assms(2)] assms r36
    by (simp add: padStart_def parse_digits_zeros parse_digits_upper parse_digits_digits)
qed

lemma length_padStart: "length (padStart s w c) = max w (length s)"
  by (simp add: padStart_def)

lemma hex_width: "(n::nat) < 2 ^ b \<Longrightarrow> n < 16 ^ ((b + 3) div 4)"
proof -
  assume n: "n < 2 ^ b"
  have "b \<le> 4 * ((b + 3) div 4)" by presburger
  then have "(2::nat) ^ b \<le> 2 ^ (4 * ((b + 3) div 4))"
    by (rule power_increasing) simp
  also have "\<dots> = (16::nat) ^ ((b + 3) div 4)"
    by (simp add: power_mult)
  finally show ?thesis using n by simp
qed

lemma length_digits_gt:
  "2 \<le> r \<Longrightarrow> r ^ k \<le> n \<Longrightarrow> k < length (digits r n)"
proof (induction r n arbitrary: k rule: digits.induct)
  case (1 r n)
  show ?case
  proof (cases k)
    case 0
    then show ?thesis using digits_nonempty [of r n] by (cases "digits r n") auto
  next
    case (Suc j)
    have rj: "r * r ^ j \<le> n" using "1.prems"(2) Suc by simp
    have "1 \<le> r ^ j" using "1.prems"(1) by simp
    then have "r * 1 \<le> r * r ^ j" by (rule mult_le_mono2)
    then have "r \<le> r * r ^ j" by (simp only: mult_1_right)
    then have big: "\<not> n < r" using rj by linarith
    have "r ^ j \<le> n div r"
      using rj "1.prems"(1) by (simp add: less_eq_div_iff_mult_less_eq mult.commute)
    then have "j < length (digits r (n div r))"
      using "1.IH" [of j] big "1.prems"(1) by simp
    then show ?thesis
      using big "1.prems"(1) Suc by (subst digits.simps) simp
  qed
qed

lemma toUpperCase_padded:
  "toUpperCase (padStart (toUpperCase s) w (CHR ''0'')) = padStart (toUpperCase s) w (CHR ''0'')"
proof -
  have "upper_char (CHR ''0'') = CHR ''0''" by (simp add: upper_char_def)
  then show ?thesis
    using toUpperCase_idem [of s] by (simp add: padStart_def toUpperCase_def)
qed

lemma length_digits_mono:
  assumes "2 \<le> r" and "m \<le> n"
  shows "length (digits r m) \<le> length (digits r n)"
proof -
  let ?k = "length (digits r n)"
  have kpos: "0 < ?k" using digits_nonempty [of r n] by simp
  have "\<not> r ^ ?k \<le> n"
    using length_digits_gt [OF assms(1), of ?k n] by auto
  then have "m < r ^ ?k" using assms(2) by simp
  then show ?thesis using length_digits_le [OF assms(1) _ kpos] by simp
qed

lemma parseInt_0x_digits:
  assumes "s \<noteq> []" and "\<forall>c \<in> set s. is_digit_of 16 c"
  shows "parseInt (''0x'' @ s) 16 = Some (int (parse_digits 16 s 0))"
proof -
  obtain c cs where s: "s = c # cs" using assms(1) by (cases s) auto
  have c: "is_digit_of 16 c" using assms(2) s by simp
  have sp: "dropWhile is_space (''0x'' @ s) = ''0x'' @ s"
    by (simp add: is_space_def)
  have sign: "strip_sign (''0x'' @ s) = (False, ''0x'' @ s)"
    by (simp add: strip_sign_def)
  have hex: "strip_hex_prefix 16 (''0x'' @ s) = s"
    by (simp add: strip_hex_prefix_def)
  show ?thesis
    unfolding parseInt_def sp sign Let_def prod.case hex
    using c s by simp
qed

lemma strip_sign_digit_string:
  assumes "s \<noteq> []" and "\<forall>c \<in> set s. is_digit_of r c"
  shows "strip_sign (dropWhile is_space s) = (False, s)"
proof -
  obtain c cs where s: "s = c # cs" using assms(1) by (cases s) auto
  have c: "is_digit_of r c" using assms(2) s by simp
  have nospace: "\<not> is_space c"
    using c by (auto simp: is_digit_of_def digit_val_def is_space_def Let_def split: if_splits)
  have nosign: "(of_char c :: nat) \<noteq> 45" "(of_char c :: nat) \<noteq> 43"
    using c by (auto simp: is_digit_of_def digit_val_def Let_def split: if_splits)
  show ?thesis
    using s nospace nosign by (simp add: strip_sign_def)
qed

lemma no_hex_prefix:
  assumes "\<forall>c \<in> set s. is_digit_of 10 c"
  shows "\<not> has_hex_prefix s"
proof (cases s)
  case Nil
  then show ?thesis by (simp add: has_hex_prefix_def)
next
  case (Cons a t)
  show ?thesis
  proof (cases t)
    case Nil
    with Cons show ?thesis by (simp add: has_hex_prefix_def)
  next
    case (Cons b rest)
    have "is_digit_of 10 b" using assms \<open>s = a # t\<close> Cons by simp
    then have "(of_char b :: nat) \<noteq> 120" "(of_char b :: nat) \<noteq> 88"
      by (auto simp: is_digit_of_def digit_val_def Let_def split: if_splits)
    with \<open>s = a # t\<close> Cons show ?thesis by (simp add: has_hex_prefix_def)
  qed
qed

text \<open>\<^verbatim>\<open>parseInt\<close> reads an integer back from its decimal text.\<close>

lemma parseInt_default_toString: "parseInt_default (toString_radix n 10) = Some n"
proof (cases "n < 0")
  case False
  let ?s = "digits 10 (nat n)"
  have ne: "?s \<noteq> []" by (rule digits_nonempty)
  have valid: "\<forall>c \<in> set ?s. is_digit_of 10 c" by (simp add: digits_all_valid)
  have sign: "strip_sign (dropWhile is_space ?s) = (False, ?s)"
    using ne valid by (rule strip_sign_digit_string)
  have "parseInt ?s 10 = Some (int (parse_digits 10 ?s 0))"
    using ne valid by (rule parseInt_of_digit_string) simp
  then have "parseInt ?s 10 = Some n"
    using False by (simp add: parse_digits_digits)
  then show ?thesis
    using False sign no_hex_prefix [OF valid]
    by (simp add: parseInt_default_def toString_radix_def)
next
  case True
  let ?d = "digits 10 (nat (- n))"
  let ?s = "CHR ''-'' # ?d"
  have ne: "?d \<noteq> []" by (rule digits_nonempty)
  have valid: "\<forall>c \<in> set ?d. is_digit_of 10 c" by (simp add: digits_all_valid)
  obtain c cs where d: "?d = c # cs" using ne by (cases ?d) auto
  have c: "is_digit_of 10 c" using valid d by simp
  have sp: "dropWhile is_space ?s = ?s" by (simp add: is_space_def)
  have sign: "strip_sign ?s = (True, ?d)" by (simp add: strip_sign_def)
  have hex: "strip_hex_prefix 10 ?d = ?d"
    by (cases ?d rule: list.exhaust; cases "tl ?d") (auto simp: strip_hex_prefix_def split: list.splits)
  have "parseInt ?s 10 = Some (- int (parse_digits 10 ?d 0))"
    unfolding parseInt_def sp sign Let_def prod.case hex
    using c d by simp
  then have val: "parseInt ?s 10 = Some n"
    using True by (simp add: parse_digits_digits)
  have "parseInt_default ?s = parseInt ?s 10"
    unfolding parseInt_default_def sp sign Let_def prod.case
    using no_hex_prefix [OF valid] by simp
  moreover have "toString_radix n 10 = ?s"
    using True by (simp add: toString_radix_def)
  ultimately show ?thesis
    using val by simp
qed

lemma formatNumber_number:
  "formatNumber num format bits =
     (if format = ''binary'' then padStart (toString_radix num 2) bits (CHR ''0'')
      else if format = ''hexadecimal'' then
        padStart (toUpperCase (toString_radix num 16)) ((bits + 3) div 4) (CHR ''0'')
      else toString_radix num 10)"
  by (simp add: formatNumber_def parseInt_default_toString toString_number_def)

lemma padStart_long: "w \<le> length s \<Longrightarrow> padStart s w c = s"
  by (simp add: padStart_def)

lemma hex_width_lower:
  assumes "2 ^ b \<le> (n::nat)"
  shows "(b + 3) div 4 \<le> length (digits 16 n)"
proof (cases "(b + 3) div 4")
  case 0
  then show ?thesis by simp
next
  case (Suc j)
  have "4 * j \<le> b" using Suc by presburger
  then have "(2::nat) ^ (4 * j) \<le> 2 ^ b" by (rule power_increasing) simp
  moreover have "(2::nat) ^ (4 * j) = 16 ^ j" by (simp add: power_mult)
  ultimately have "(16::nat) ^ j \<le> n" using assms by simp
  then have "j < length (digits 16 n)"
    using length_digits_gt [of 16 j n] by simp
  then show ?thesis using Suc by simp
qed

section \<open>Claims about the formatting functions\<close>

text \<open>
  Claim C2, as stated: for \<open>b\<close> from 1 to 16 and \<open>n\<close> from 0 to \<open>2^b - 1\<close>, the hexadecimal
  rendering of \<open>n\<close> is an upper-case string, left-padded with zeros to \<open>ceil(b/4)\<close> digits.
  \<^verbatim>\<open>displayResults\<close> of \<^verbatim>\<open>unnamed/part_003\<close> writes \<^verbatim>\<open>'0x'\<close> and the digits, without
  padding: 15 at 8 bits is the three characters below, not \<^verbatim>\<open>0F\<close>, and upper-casing
  changes the string.
\<close>

theorem displayResults_hex_counterexample:
  "displayResults_item 15 ''hex'' 8 = ''0xF''
   \<and> length (displayResults_item 15 ''hex'' 8) = 3
   \<and> (8 + 3) div 4 = (2::nat)
   \<and> toUpperCase (displayResults_item 15 ''hex'' 8) = ''0XF''"
  by code_simp

text \<open>
  Claim C2, amended. For every bit width \<open>b\<close> from 1 to 16 and every \<open>n\<close> from 0 to
  \<open>2^b - 1\<close>: with \<^verbatim>\<open>formatNumber\<close> of \<^verbatim>\<open>frontend/app.js\<close>, the binary rendering of \<open>n\<close>
  has exactly \<open>b\<close> characters and \<^verbatim>\<open>parseInt(_, 2)\<close> reads \<open>n\<close> back from it; the
  hexadecimal rendering is in upper case, is the digit string left-padded with zeros to
  \<open>ceil(b/4)\<close> characters, and \<^verbatim>\<open>parseInt(_, 16)\<close> reads \<open>n\<close> back from it. With
  \<^verbatim>\<open>displayResults\<close> of \<^verbatim>\<open>unnamed/part_003\<close>, the binary rendering has the same two
  properties; the hexadecimal rendering is \<^verbatim>\<open>0x\<close> followed by the upper-case digits
  without padding, and \<^verbatim>\<open>parseInt(_, 16)\<close> reads \<open>n\<close> back from it.
\<close>

theorem formatNumber_roundtrip:
  assumes "1 \<le> b" and "b \<le> 16" and "0 \<le> n" and "n \<le> 2 ^ b - 1"
  shows "length (formatNumber n ''binary'' b) = b
       \<and> parseInt (formatNumber n ''binary'' b) 2 = Some n
       \<and> toUpperCase (formatNumber n ''hexadecimal'' b) = formatNumber n ''hexadecimal'' b
       \<and> formatNumber n ''hexadecimal'' b =
           replicate ((b + 3) div 4 - length (toString_radix n 16)) (CHR ''0'')
             @ toUpperCase (toString_radix n 16)
       \<and> length (formatNumber n ''hexadecimal'' b) = (b + 3) div 4
       \<and> parseInt (formatNumber n ''hexadecimal'' b) 16 = Some n
       \<and> length (displayResults_item n ''binary'' b) = b
       \<and> parseInt (displayResults_item n ''binary'' b) 2 = Some n
       \<and> displayResults_item n ''hex'' b = ''0x'' @ toUpperCase (toString_radix n 16)
       \<and> parseInt (displayResults_item n ''hex'' b) 16 = Some n"
proof -
  have small: "nat n < 2 ^ b"
  proof -
    have "n < 2 ^ b" using assms(4) by simp
    then have "int (nat n) < int (2 ^ b)" using assms(3) by simp
    then show ?thesis by (simp only: of_nat_less_iff)
  qed
  have bin: "formatNumber n ''binary'' b = padStart (digits 2 (nat n)) b (CHR ''0'')"
    using assms(3) by (simp add: formatNumber_number toString_radix_def)
  have hex: "formatNumber n ''hexadecimal'' b =
      padStart (toUpperCase (digits 16 (nat n))) ((b + 3) div 4) (CHR ''0'')"
    using assms(3) by (simp add: formatNumber_number toString_radix_def)
  have bin3: "displayResults_item n ''binary'' b = padStart (digits 2 (nat n)) b (CHR ''0'')"
    using assms(3) by (simp add: displayResults_item_def toString_radix_def)
  have hex3: "displayResults_item n ''hex'' b = ''0x'' @ toUpperCase (digits 16 (nat n))"
    using assms(3) by (simp add: displayResults_item_def toString_radix_def)
  have lb: "length (digits 2 (nat n)) \<le> b"
    using length_digits_le [of 2 "nat n" b] small assms(1) by simp
  have hpos: "0 < (b + 3) div 4" using assms(1) by presburger
  have lh: "length (digits 16 (nat n)) \<le> (b + 3) div 4"
    using length_digits_le [of 16 "nat n" "(b + 3) div 4"] hex_width [OF small] hpos by simp
  have c1: "length (formatNumber n ''binary'' b) = b"
    using lb by (simp add: bin length_padStart)
  have c2: "parseInt (formatNumber n ''binary'' b) 2 = Some n"
    using parseInt_padded_digits(1) [of 2 "nat n" b] assms(3) by (simp add: bin)
  have c3: "toUpperCase (formatNumber n ''hexadecimal'' b) = formatNumber n ''hexadecimal'' b"
    by (simp only: hex toUpperCase_padded)
  have c4: "formatNumber n ''hexadecimal'' b =
      replicate ((b + 3) div 4 - length (toString_radix n 16)) (CHR ''0'')
        @ toUpperCase (toString_radix n 16)"
    using assms(3) by (simp add: hex padStart_def toString_radix_def toUpperCase_def)
  have c5: "length (formatNumber n ''hexadecimal'' b) = (b + 3) div 4"
    using lh by (simp add: hex length_padStart toUpperCase_def)
  have c6: "parseInt (formatNumber n ''hexadecimal'' b) 16 = Some n"
    using parseInt_padded_digits(2) [of 16 "nat n" "(b + 3) div 4"] assms(3) by (simp add: hex)
  have c7: "length (displayResults_item n ''binary'' b) = b"
    using c1 by (simp only: bin bin3)
  have c8: "parseInt (displayResults_item n ''binary'' b) 2 = Some n"
    using c2 by (simp only: bin bin3)
  have c9: "displayResults_item n ''hex'' b = ''0x'' @ toUpperCase (toString_radix n 16)"
    using assms(3) by (simp add: hex3 toString_radix_def)
  have valid: "\<forall>c \<in> set (toUpperCase (digits 16 (nat n))). is_digit_of 16 c"
    using digits_all_valid [of 16 "nat n"] by (simp add: toUpperCase_def is_digit_of_upper_char)
  have ne: "toUpperCase (digits 16 (nat n)) \<noteq> []"
    by (simp add: toUpperCase_def digits_nonempty)
  have "parseInt (''0x'' @ toUpperCase (digits 16 (nat n))) 16
      = Some (int (parse_digits 16 (toUpperCase (digits 16 (nat n))) 0))"
    using ne valid by (rule parseInt_0x_digits)
  then have c10: "parseInt (displayResults_item n ''hex'' b) 16 = Some n"
    using assms(3) by (simp only: hex3 parse_digits_upper) (simp add: parse_digits_digits)
  from c1 c2 c3 c4 c5 c6 c7 c8 c9 c10 show ?thesis by blast
qed

theorem formatNumber_roundtrip_witness:
  "length (formatNumber 255 ''binary'' 8) = 8
   \<and> parseInt (formatNumber 255 ''binary'' 8) 2 = Some 255
   \<and> toUpperCase (formatNumber 255 ''hexadecimal'' 8) = formatNumber 255 ''hexadecimal'' 8
   \<and> formatNumber 255 ''hexadecimal'' 8 =
       replicate ((8 + 3) div 4 - length (toString_radix 255 16)) (CHR ''0'')
         @ toUpperCase (toString_radix 255 16)
   \<and> length (formatNumber 255 ''hexadecimal'' 8) = (8 + 3) div 4
   \<and> parseInt (formatNumber 255 ''hexadecimal'' 8) 16 = Some 255
   \<and> length (displayResults_item 255 ''binary'' 8) = 8
   \<and> parseInt (displayResults_item 255 ''binary'' 8) 2 = Some 255
   \<and> displayResults_item 255 ''hex'' 8 = ''0x'' @ toUpperCase (toString_radix 255 16)
   \<and> parseInt (displayResults_item 255 ''hex'' 8) 16 = Some 255"
  by (rule formatNumber_roundtrip) simp_all

text \<open>
  Claim C7, as stated: formatting a negative \<open>n\<close>, or an \<open>n\<close> above \<open>2^numBits - 1\<close>,
  fails with a format error instead of returning a string. Neither \<^verbatim>\<open>formatNumber\<close> has
  a range check: at \<open>n = 256\<close> and \<open>n = -1\<close> with 8 bits the one of \<^verbatim>\<open>frontend/app.js\<close>
  returns the first four strings below, at \<open>n = 300\<close> and \<open>n = -5\<close> the one of
  \<^verbatim>\<open>unnamed/part_001\<close> the last two.
\<close>

theorem formatNumber_range_counterexample:
  "formatNumber 256 ''binary'' 8 = ''100000000''
   \<and> formatNumber 256 ''hexadecimal'' 8 = ''100''
   \<and> formatNumber (- 1) ''decimal'' 8 = ''-1''
   \<and> formatNumber (- 1) ''binary'' 8 = ''000000-1''
   \<and> formatNumber_padded 300 8 = ''300''
   \<and> formatNumber_padded (- 5) 8 = ''0-5''"
  by code_simp

text \<open>
  Claim C7, amended: neither \<^verbatim>\<open>formatNumber\<close> performs a range check, and each returns a
  string for every integer \<open>n\<close> that a JavaScript number holds exactly
  (\<open>|n| \<le> 2^53 - 1\<close>) and every bit width \<open>b\<close> up to 53.

  For \<open>n\<close> above \<open>2^b - 1\<close>, \<^verbatim>\<open>formatNumber\<close> of \<^verbatim>\<open>frontend/app.js\<close> returns the digit
  string of \<open>n\<close> without padding: in binary it is longer than \<open>b\<close> and reads back as
  \<open>n\<close> in base 2, in hexadecimal it is in upper case and reads back as \<open>n\<close> in base 16,
  in decimal it is the decimal digits. The padded decimal \<^verbatim>\<open>formatNumber\<close> of
  \<^verbatim>\<open>unnamed/part_001\<close> returns the decimal digits of \<open>n\<close> without padding.

  For a negative \<open>n\<close>, the text is a minus sign followed by the digits of \<open>|n|\<close>, in upper
  case for hexadecimal; the binary and the hexadecimal text are then left-padded with
  zeros to \<open>b\<close> and to \<open>ceil(b/4)\<close> characters, the decimal text is not padded, and the
  one of \<^verbatim>\<open>unnamed/part_001\<close> is left-padded with zeros to the number of decimal digits
  of \<open>2^b - 1\<close>.
\<close>

theorem formatNumber_unchecked:
  assumes "isSafeInteger n" and "b \<le> 53"
  shows "(2 ^ b \<le> n \<longrightarrow>
            formatNumber n ''binary'' b = digits 2 (nat n)
          \<and> b < length (formatNumber n ''binary'' b)
          \<and> parseInt (formatNumber n ''binary'' b) 2 = Some n
          \<and> formatNumber n ''hexadecimal'' b = toUpperCase (digits 16 (nat n))
          \<and> parseInt (formatNumber n ''hexadecimal'' b) 16 = Some n
          \<and> formatNumber n ''decimal'' b = digits 10 (nat n)
          \<and> formatNumber_padded n b = digits 10 (nat n))
       \<and> (n < 0 \<longrightarrow>
            formatNumber n ''binary'' b =
              padStart (CHR ''-'' # digits 2 (nat (- n))) b (CHR ''0'')
          \<and> formatNumber n ''hexadecimal'' b =
              padStart (CHR ''-'' # toUpperCase (digits 16 (nat (- n)))) ((b + 3) div 4) (CHR ''0'')
          \<and> formatNumber n ''decimal'' b = CHR ''-'' # digits 10 (nat (- n))
          \<and> formatNumber_padded n b =
              padStart (CHR ''-'' # digits 10 (nat (- n)))
                (length (digits 10 (2 ^ b - 1))) (CHR ''0''))"
proof (intro conjI impI)
  assume big: "2 ^ b \<le> n"
  then have pos: "0 \<le> n" by (meson order_trans zero_le_numeral zero_le_power)
  have "int (2 ^ b) \<le> int (nat n)" using big pos by simp
  then have nbig: "2 ^ b \<le> nat n" by (simp only: of_nat_le_iff)
  then have len: "b < length (digits 2 (nat n))"
    using length_digits_gt [of 2 b "nat n"] by simp
  then show eq: "formatNumber n ''binary'' b = digits 2 (nat n)"
    using pos by (simp add: formatNumber_number toString_radix_def padStart_long)
  show "b < length (formatNumber n ''binary'' b)"
    using len by (simp only: eq)
  have "parseInt (padStart (digits 2 (nat n)) 0 (CHR ''0'')) 2 = Some (int (nat n))"
    by (rule parseInt_padded_digits(1)) simp_all
  then show "parseInt (formatNumber n ''binary'' b) 2 = Some n"
    using pos by (simp add: eq padStart_def)
  have "(b + 3) div 4 \<le> length (toUpperCase (digits 16 (nat n)))"
    using hex_width_lower [OF nbig] by (simp add: toUpperCase_def)
  then show hex: "formatNumber n ''hexadecimal'' b = toUpperCase (digits 16 (nat n))"
    using pos by (simp add: formatNumber_number toString_radix_def padStart_long)
  have "parseInt (padStart (toUpperCase (digits 16 (nat n))) 0 (CHR ''0'')) 16 = Some (int (nat n))"
    by (rule parseInt_padded_digits(2)) simp_all
  then show "parseInt (formatNumber n ''hexadecimal'' b) 16 = Some n"
    using pos by (simp add: hex padStart_def)
  show "formatNumber n ''decimal'' b = digits 10 (nat n)"
    using pos by (simp add: formatNumber_number toString_radix_def)
  have "nat (2 ^ b - 1) \<le> nat n" using big by simp
  then have "length (digits 10 (nat (2 ^ b - 1))) \<le> length (digits 10 (nat n))"
    by (intro length_digits_mono) simp_all
  moreover have "toString_radix (2 ^ b - 1) 10 = digits 10 (nat (2 ^ b - 1))"
  proof -
    have "(1::int) \<le> 2 ^ b" by (rule one_le_power) simp
    then have "\<not> (2::int) ^ b - 1 < 0" by linarith
    then show ?thesis by (simp only: toString_radix_def if_False)
  qed
  moreover have "toString_radix n 10 = digits 10 (nat n)"
    using pos by (simp add: toString_radix_def)
  ultimately show "formatNumber_padded n b = digits 10 (nat n)"
    by (simp add: formatNumber_padded_def padStart_def Let_def)
next
  assume neg: "n < 0"
  show "formatNumber n ''binary'' b = padStart (CHR ''-'' # digits 2 (nat (- n))) b (CHR ''0'')"
    using neg by (simp add: formatNumber_number toString_radix_def)
  have "upper_char (CHR ''-'') = CHR ''-''" by (simp add: upper_char_def)
  then show "formatNumber n ''hexadecimal'' b =
      padStart (CHR ''-'' # toUpperCase (digits 16 (nat (- n)))) ((b + 3) div 4) (CHR ''0'')"
    using neg by (simp add: formatNumber_number toString_radix_def toUpperCase_def)
  show "formatNumber n ''decimal'' b = CHR ''-'' # digits 10 (nat (- n))"
    using neg by (simp add: formatNumber_number toString_radix_def)
  have "(1::int) \<le> 2 ^ b" by (rule one_le_power) simp
  then have nn: "\<not> (2::int) ^ b - 1 < 0" by linarith
  have w: "toString_radix (2 ^ b - 1) 10 = digits 10 (nat (2 ^ b - 1))"
    using nn by (simp only: toString_radix_def if_False)
  have "nat ((2::int) ^ b - 1) = 2 ^ b - 1"
    by (simp add: nat_diff_distrib nat_power_eq)
  then show "formatNumber_padded n b =
      padStart (CHR ''-'' # digits 10 (nat (- n))) (length (digits 10 (2 ^ b - 1))) (CHR ''0'')"
    using neg w by (simp add: formatNumber_padded_def Let_def toString_radix_def)
qed

theorem formatNumber_unchecked_witness:
  "formatNumber 256 ''binary'' 8 = digits 2 (nat 256)
   \<and> 8 < length (formatNumber 256 ''binary'' 8)
   \<and> parseInt (formatNumber 256 ''binary'' 8) 2 = Some 256
   \<and> formatNumber 256 ''hexadecimal'' 8 = toUpperCase (digits 16 (nat 256))
   \<and> parseInt (formatNumber 256 ''hexadecimal'' 8) 16 = Some 256
   \<and> formatNumber 256 ''decimal'' 8 = digits 10 (nat 256)
   \<and> formatNumber_padded 256 8 = digits 10 (nat 256)
   \<and> formatNumber (- 1) ''binary'' 8 =
       padStart (CHR ''-'' # digits 2 (nat (- (- 1)))) 8 (CHR ''0'')
   \<and> formatNumber (- 1) ''hexadecimal'' 8 =
       padStart (CHR ''-'' # toUpperCase (digits 16 (nat (- (- 1))))) ((8 + 3) div 4) (CHR ''0'')
   \<and> formatNumber (- 1) ''decimal'' 8 = CHR ''-'' # digits 10 (nat (- (- 1)))
   \<and> formatNumber_padded (- 1) 8 =
       padStart (CHR ''-'' # digits 10 (nat (- (- 1)))) (length (digits 10 (2 ^ 8 - 1))) (CHR ''0'')"
proof -
  have s1: "isSafeInteger 256" and s2: "isSafeInteger (- 1)"
    by (simp_all add: isSafeInteger_def MAX_SAFE_INTEGER_def)
  have w: "(8::nat) \<le> 53" by simp
  have a: "(2::int) ^ 8 \<le> 256" by simp
  have b: "(- 1 :: int) < 0" by simp
  from formatNumber_unchecked [OF s1 w] a
  have "formatNumber 256 ''binary'' 8 = digits 2 (nat 256)
      \<and> 8 < length (formatNumber 256 ''binary'' 8)
      \<and> parseInt (formatNumber 256 ''binary'' 8) 2 = Some 256
      \<and> formatNumber 256 ''hexadecimal'' 8 = toUpperCase (digits 16 (nat 256))
      \<and> parseInt (formatNumber 256 ''hexadecimal'' 8) 16 = Some 256
      \<and> formatNumber 256 ''decimal'' 8 = digits 10 (nat 256)
      \<and> formatNumber_padded 256 8 = digits 10 (nat 256)" by blast
  moreover from formatNumber_unchecked [OF s2 w] b
  have "formatNumber (- 1) ''binary'' 8 =
        padStart (CHR ''-'' # digits 2 (nat (- (- 1)))) 8 (CHR ''0'')
      \<and> formatNumber (- 1) ''hexadecimal'' 8 =
        padStart (CHR ''-'' # toUpperCase (digits 16 (nat (- (- 1))))) ((8 + 3) div 4) (CHR ''0'')
      \<and> formatNumber (- 1) ''decimal'' 8 = CHR ''-'' # digits 10 (nat (- (- 1)))
      \<and> formatNumber_padded (- 1) 8 =
        padStart (CHR ''-'' # digits 10 (nat (- (- 1)))) (length (digits 10 (2 ^ 8 - 1))) (CHR ''0'')"
    by blast
  ultimately show ?thesis by blast
qed

section \<open>The local simulation stays in range below 32 bits\<close>

lemma set_bit_below:
  fixes q :: "32 word"
  assumes "b < n" and "q AND mask n = q"
  shows "(q OR push_bit b 1) AND mask n = q OR push_bit b 1"
proof -
  have "push_bit b (1 :: 32 word) AND mask n = push_bit b 1"
    using assms(1) by (intro bit_word_eqI) (auto simp: bit_simps)
  then show ?thesis
    using assms(2) by (simp add: bit.conj_disj_distrib2)
qed

lemma fold_bits_below:
  fixes q :: "32 word" and random :: "nat \<Rightarrow> real"
  assumes "\<forall>b \<in> set bs. b < n" and "n \<le> 32" and "q AND mask n = q"
  shows "foldl (\<lambda>quantumNumber bit.
              if random (k0 + bit) < 1 / 2 then quantumNumber OR push_bit (bit mod 32) 1
              else quantumNumber) q bs AND mask n
       = foldl (\<lambda>quantumNumber bit.
              if random (k0 + bit) < 1 / 2 then quantumNumber OR push_bit (bit mod 32) 1
              else quantumNumber) q bs"
  using assms
proof (induction bs arbitrary: q)
  case Nil
  then show ?case by simp
next
  case (Cons b bs)
  have b: "b < n" using Cons.prems(1) by simp
  then have bm: "b mod 32 = b" using Cons.prems(2) by simp
  have rest: "\<forall>b \<in> set bs. b < n" using Cons.prems(1) by simp
  show ?case
  proof (cases "random (k0 + b) < 1 / 2")
    case True
    have "(q OR push_bit b 1) AND mask n = q OR push_bit b 1"
      using set_bit_below [OF b Cons.prems(3)] .
    then show ?thesis
      using Cons.IH [OF rest Cons.prems(2), of "q OR push_bit b 1"] True bm by simp
  next
    case False
    then show ?thesis
      using Cons.IH [OF rest Cons.prems(2) Cons.prems(3)] by simp
  qed
qed

lemma measure_qubits_bound:
  assumes "numBits \<le> 31"
  shows "0 \<le> sint (measure_qubits random k0 numBits)"
    and "sint (measure_qubits random k0 numBits) < 2 ^ numBits"
proof -
  let ?q = "measure_qubits random k0 numBits"
  have "?q AND mask numBits = ?q"
    unfolding measure_qubits_def
    using assms by (intro fold_bits_below) simp_all
  then have u: "uint ?q < 2 ^ numBits" by (simp only: mask_eq_iff)
  have "(2::int) ^ numBits \<le> 2 ^ 31"
    using assms by (intro power_increasing) simp_all
  then have u31: "uint ?q < 2 ^ 31" using u by linarith
  have "sint ?q = signed_take_bit 31 (uint ?q)"
    by (simp add: sint_uint)
  also have "\<dots> = uint ?q"
  proof (rule signed_take_bit_int_eq_self)
    have "0 \<le> uint ?q" by simp
    moreover have "- (2 ^ 31) \<le> (0::int)" by simp
    ultimately show "- (2 ^ 31) \<le> uint ?q" by (rule order_trans [rotated])
    show "uint ?q < 2 ^ 31" by (rule u31)
  qed
  finally have eq: "sint ?q = uint ?q" .
  show "0 \<le> sint ?q" by (simp add: eq)
  show "sint ?q < 2 ^ numBits" using u by (simp add: eq)
qed

text \<open>
  Claim C9, amended: for every \<open>numBits\<close> from 1 to 31 and every \<open>numSamples\<close>, the
  simulation returns exactly \<open>numSamples\<close> integers, each between 0 and \<open>2^numBits - 1\<close>,
  with no bit set at a position \<open>numBits\<close> or higher.
\<close>

theorem simulateQuantumCircuit_range:
  assumes "1 \<le> numBits" and "numBits \<le> 31"
  shows "length (simulateQuantumCircuit random numBits numSamples) = numSamples
       \<and> (\<forall>n \<in> set (simulateQuantumCircuit random numBits numSamples).
             0 \<le> n \<and> n \<le> 2 ^ numBits - 1 \<and> (\<forall>j. numBits \<le> j \<longrightarrow> \<not> bit n j))"
proof -
  have "0 \<le> n \<and> n \<le> 2 ^ numBits - 1 \<and> (\<forall>j. numBits \<le> j \<longrightarrow> \<not> bit n j)"
    if "n \<in> set (simulateQuantumCircuit random numBits numSamples)" for n
  proof -
    from that obtain i where n: "n = sint (measure_qubits random (i * numBits) numBits)"
      by (auto simp: simulateQuantumCircuit_def)
    have lo: "0 \<le> n" and hi: "n < 2 ^ numBits"
      using measure_qubits_bound [OF assms(2), of random "i * numBits"] n by simp_all
    have "take_bit numBits n = n"
      using lo hi by (rule take_bit_int_eq_self)
    then have "\<not> bit n j" if "numBits \<le> j" for j
      using that bit_take_bit_iff [of numBits n j] by simp
    then show ?thesis using lo hi by simp
  qed
  then show ?thesis by (simp add: simulateQuantumCircuit_def)
qed

theorem simulateQuantumCircuit_range_witness:
  "length (simulateQuantumCircuit every_draw_low 8 3) = 3
   \<and> 0 \<le> simulateQuantumCircuit every_draw_low 8 3 ! 0
   \<and> simulateQuantumCircuit every_draw_low 8 3 ! 0 \<le> 2 ^ 8 - 1"
proof -
  have h: "(1::nat) \<le> 8" "(8::nat) \<le> 31" by simp_all
  note r = simulateQuantumCircuit_range [OF h, of every_draw_low 3]
  from r have len: "length (simulateQuantumCircuit every_draw_low 8 3) = 3" by blast
  then have "simulateQuantumCircuit every_draw_low 8 3 ! 0
      \<in> set (simulateQuantumCircuit every_draw_low 8 3)"
    by (intro nth_mem) simp
  with r len show ?thesis by blast
qed

text \<open>
  Claim C9, as stated, ranges over every \<open>numBits \<ge> 1\<close>. With 32 bits and every draw
  below one half, bit 31 is set as well and the 32-bit result is read back as \<open>-1\<close>.
\<close>

theorem simulateQuantumCircuit_32_counterexample:
  "simulateQuantumCircuit every_draw_low 32 1 = [- 1]"
  by (simp add: simulateQuantumCircuit_def measure_qubits_def every_draw_low_def upt_rec)


section \<open>Properties of the distribution chart\<close>

lemma shl1_pow:
  assumes "1 \<le> bits" and "bits \<le> 30"
  shows "shl1 bits = 2 ^ nat bits"
proof -
  have m: "nat (bits mod 32) = nat bits" using assms by simp
  have k: "nat bits < 31" using assms by simp
  let ?w = "push_bit (nat bits) (1 :: 32 word)"
  have "(2::int) ^ nat bits < 2 ^ 31"
    using k by (intro power_strict_increasing) simp_all
  then have p31: "(2::int) ^ nat bits < 2147483648" by simp
  then have p32: "(2::int) ^ nat bits < 2 ^ 32" by simp
  have "(0 :: 32 word) < 2 ^ nat bits"
    using k by (simp add: word_2p_lem word_size)
  then have "uint ((2 :: 32 word) ^ nat bits) = 2 ^ nat bits"
    by (rule uint_2p)
  then have u: "uint ?w = 2 ^ nat bits"
    by (simp add: push_bit_of_1)
  have "sint ?w = signed_take_bit 31 (uint ?w)"
    by (simp add: sint_uint)
  also have "\<dots> = uint ?w"
  proof (rule signed_take_bit_int_eq_self)
    have "0 \<le> uint ?w" by simp
    moreover have "- (2 ^ 31) \<le> (0::int)" by simp
    ultimately show "- (2 ^ 31) \<le> uint ?w" by (rule order_trans [rotated])
    show "uint ?w < 2 ^ 31" using p31 u by simp
  qed
  finally show ?thesis using u m by (simp add: shl1_def)
qed

lemma length_inc: "length (inc counts i) = length counts"
  by (simp add: inc_def)

lemma nth_inc: "i < length counts \<Longrightarrow> inc counts i ! j = (if j = i then counts ! j + 1 else counts ! j)"
  by (simp add: inc_def nth_list_update)

lemma sum_list_inc: "i < length counts \<Longrightarrow> sum_list (inc counts i) = sum_list counts + 1"
  by (simp add: inc_def sum_list_update)

subsection \<open>The exact branch\<close>

lemma length_count_exact: "length (foldl (count_exact m) cs ns) = length cs"
  by (induction ns arbitrary: cs) (simp_all add: count_exact_def length_inc)


lemma sum_count_exact:
  "int (length cs) = m + 1 \<Longrightarrow>
   sum_list (foldl (count_exact m) cs ns) = sum_list cs + length (filter (\<lambda>n. 0 \<le> n \<and> n \<le> m) ns)"
proof (induction ns arbitrary: cs)
  case Nil
  then show ?case by simp
next
  case (Cons n ns)
  have len: "int (length (count_exact m cs n)) = m + 1"
    using Cons.prems(1) by (simp add: count_exact_def length_inc)
  have step: "sum_list (count_exact m cs n) = sum_list cs + (if 0 \<le> n \<and> n \<le> m then 1 else 0)"
  proof (cases "0 \<le> n \<and> n \<le> m")
    case True
    then have "nat n < length cs" using Cons.prems(1) by linarith
    then show ?thesis using True by (simp add: count_exact_def sum_list_inc)
  next
    case False
    then show ?thesis by (auto simp: count_exact_def)
  qed
  show ?case using Cons.IH [OF len] step by simp
qed


lemma filter_finite_values:
  "length (filter P (finite_values xs)) = length (filter (\<lambda>x. case x of Fin v \<Rightarrow> P v | _ \<Rightarrow> False) xs)"
  by (induction xs rule: finite_values.induct) simp_all

lemma in_range_alt: "in_range m = (\<lambda>x. case x of Fin v \<Rightarrow> 0 \<le> v \<and> v \<le> m | _ \<Rightarrow> False)"
  by (rule ext) (simp add: in_range_def)


subsection \<open>The bucket branch\<close>

lemma clamped_bucket_less: "clamped_bucket m v < 256"
  by (simp add: clamped_bucket_def)

lemma bucket_slot_nonzero: "m \<noteq> 0 \<Longrightarrow> bucket_slot v m = Some (clamped_bucket m v)"
  by (simp add: bucket_slot_def clamped_bucket_def)

lemma length_count_bucket: "length (foldl (count_bucket m) cs ns) = length cs"
  by (induction ns arbitrary: cs)
     (simp_all add: count_bucket_def length_inc split: option.splits)


lemma sum_count_bucket:
  "m \<noteq> 0 \<Longrightarrow> length cs = 256 \<Longrightarrow>
   sum_list (foldl (count_bucket m) cs ns)
     = sum_list cs + length (filter (\<lambda>n. 0 \<le> n \<and> n \<le> m) ns)"
proof (induction ns arbitrary: cs)
  case Nil
  then show ?case by simp
next
  case (Cons n ns)
  have len: "length (count_bucket m cs n) = 256"
    using Cons.prems(2) by (simp add: count_bucket_def length_inc split: option.splits)
  have step: "sum_list (count_bucket m cs n) = sum_list cs + (if 0 \<le> n \<and> n \<le> m then 1 else 0)"
    using Cons.prems clamped_bucket_less [of m n]
    by (auto simp: count_bucket_def bucket_slot_nonzero sum_list_inc)
  show ?case using Cons.IH [OF Cons.prems(1) len] step by simp
qed

subsection \<open>The version of the assets page\<close>



lemma length_count_bucket_assets: "length (foldl (count_bucket_assets m) cs ns) = length cs"
  by (induction ns arbitrary: cs)
     (simp_all add: count_bucket_assets_def length_inc split: jsnum.splits option.splits)

lemma nth_count_bucket_assets:
  "m \<noteq> 0 \<Longrightarrow> length cs = 256 \<Longrightarrow> i < 256 \<Longrightarrow>
   foldl (count_bucket_assets m) cs ns ! i
     = cs ! i + length (filter (finite_in_bucket m i) ns)"
proof (induction ns arbitrary: cs)
  case Nil
  then show ?case by simp
next
  case (Cons n ns)
  have len: "length (count_bucket_assets m cs n) = 256"
    using Cons.prems(2)
    by (simp add: count_bucket_assets_def length_inc split: jsnum.splits option.splits)
  have step: "count_bucket_assets m cs n ! i
      = cs ! i + (if finite_in_bucket m i n then 1 else 0)"
  proof (cases n)
    case (Fin v)
    then show ?thesis
      using Cons.prems clamped_bucket_less [of m v]
      by (auto simp: count_bucket_assets_def finite_in_bucket_def bucket_slot_nonzero nth_inc)
  qed (simp_all add: count_bucket_assets_def finite_in_bucket_def)
  show ?case using Cons.IH [OF Cons.prems(1) len Cons.prems(3)] step by simp
qed

lemma sum_count_bucket_assets:
  "m \<noteq> 0 \<Longrightarrow> length cs = 256 \<Longrightarrow>
   sum_list (foldl (count_bucket_assets m) cs ns) = sum_list cs + length (finite_values ns)"
proof (induction ns arbitrary: cs)
  case Nil
  then show ?case by simp
next
  case (Cons n ns)
  have len: "length (count_bucket_assets m cs n) = 256"
    using Cons.prems(2)
    by (simp add: count_bucket_assets_def length_inc split: jsnum.splits option.splits)
  have step: "sum_list (count_bucket_assets m cs n) = sum_list cs + length (finite_values [n])"
  proof (cases n)
    case (Fin v)
    then show ?thesis
      using Cons.prems clamped_bucket_less [of m v]
      by (simp add: count_bucket_assets_def bucket_slot_nonzero sum_list_inc)
  qed (simp_all add: count_bucket_assets_def)
  have "length (finite_values (n # ns)) = length (finite_values [n]) + length (finite_values ns)"
    by (cases n) simp_all
  then show ?case using Cons.IH [OF Cons.prems(1) len] step by simp
qed

lemma in_range_bucket:
  assumes "0 < m" and "0 \<le> v" and "v \<le> m"
  shows "clamped_bucket m v = nat ((v * 255) div m)" and "(v * 255) div m \<le> 255"
proof -
  have "v * 255 \<le> 255 * m" using assms by simp
  then have "(v * 255) div m \<le> (255 * m) div m"
    using assms(1) by (intro zdiv_mono1) simp_all
  then show hi: "(v * 255) div m \<le> 255" using assms(1) by simp
  have "0 \<le> (v * 255) div m"
    using assms by (simp add: pos_imp_zdiv_nonneg_iff)
  with hi show "clamped_bucket m v = nat ((v * 255) div m)"
    by (simp add: clamped_bucket_def)
qed


subsection \<open>Which branch is taken\<close>

lemma branch_condition:
  assumes "1 \<le> bits" and "bits \<le> 30"
  shows "(bits \<le> BUCKET_THRESHOLD_BITS \<and> shl1 bits - 1 \<le> 4096) = (2 ^ nat bits - 1 \<le> (4096::int))"
    and "(bits \<le> 12 \<and> shl1 bits - 1 \<le> 4096) = (2 ^ nat bits - 1 \<le> (4096::int))"
proof -
  have sh: "shl1 bits = 2 ^ nat bits" using assms by (rule shl1_pow)
  have small: "(2::int) ^ nat bits - 1 \<le> 4096" if "bits \<le> 12"
  proof -
    have "nat bits \<le> 12" using that by simp
    then have "(2::int) ^ nat bits \<le> 2 ^ 12" by (intro power_increasing) simp_all
    then show ?thesis by simp
  qed
  have big: "\<not> (2::int) ^ nat bits - 1 \<le> 4096" if "\<not> bits \<le> 12"
  proof -
    have "13 \<le> nat bits" using that by simp
    then have "(2::int) ^ 13 \<le> 2 ^ nat bits" by (intro power_increasing) simp_all
    then show ?thesis by simp
  qed
  show "(bits \<le> BUCKET_THRESHOLD_BITS \<and> shl1 bits - 1 \<le> 4096) = (2 ^ nat bits - 1 \<le> (4096::int))"
    using small big by (auto simp: sh BUCKET_THRESHOLD_BITS_def)
  show "(bits \<le> 12 \<and> shl1 bits - 1 \<le> 4096) = (2 ^ nat bits - 1 \<le> (4096::int))"
    using small big by (auto simp: sh)
qed

lemma maxValue_positive:
  assumes "1 \<le> bits" and "bits \<le> 30"
  shows "0 < (2::int) ^ nat bits - 1"
proof -
  have "1 \<le> nat bits" using assms by simp
  then have "(2::int) ^ 1 \<le> 2 ^ nat bits" by (intro power_increasing) simp_all
  then show ?thesis by simp
qed

lemma nat_maxValue_succ: "nat ((2::int) ^ k) = 2 ^ k"
  by (simp add: nat_power_eq)


lemma count_in_range_finite_values:
  "count_in_range numbers m = length (filter (\<lambda>n. 0 \<le> n \<and> n \<le> m) (finite_values numbers))"
  by (simp only: filter_finite_values count_in_range_def in_range_alt)

lemma renderDistributionGraph_exact:
  assumes "1 \<le> numBits" and "numBits \<le> 30" and "2 ^ nat numBits - 1 \<le> (4096::int)"
  shows "renderDistributionGraph numbers numBits =
           Some (map (\<lambda>i. toString_radix (int i) 10) [0..<2 ^ nat numBits],
                 foldl (count_exact (2 ^ nat numBits - 1)) (replicate (2 ^ nat numBits) 0)
                   (finite_values numbers))"
  using assms branch_condition(1) [OF assms(1,2)]
  by (simp add: renderDistributionGraph_def Let_def shl1_pow length_count_exact nat_maxValue_succ)

lemma renderDistributionGraph_bucket:
  assumes "1 \<le> numBits" and "numBits \<le> 30" and "\<not> 2 ^ nat numBits - 1 \<le> (4096::int)"
  shows "renderDistributionGraph numbers numBits =
           Some (map (\<lambda>i. range_label i (2 ^ nat numBits - 1)) [0..<256],
                 foldl (count_bucket (2 ^ nat numBits - 1)) (replicate 256 0)
                   (finite_values numbers))"
  using assms branch_condition(1) [OF assms(1,2)]
  by (simp add: renderDistributionGraph_def Let_def shl1_pow length_count_bucket)


lemma renderDistributionGraph_assets_bucket:
  assumes "1 \<le> numBits" and "numBits \<le> 30" and "\<not> 2 ^ nat numBits - 1 \<le> (4096::int)"
  shows "renderDistributionGraph_assets numbers numBits =
           Some (map (\<lambda>i. range_label i (2 ^ nat numBits - 1)) [0..<256],
                 foldl (count_bucket_assets (2 ^ nat numBits - 1)) (replicate 256 0) numbers)"
  using assms branch_condition(2) [OF assms(1,2)]
  by (simp add: renderDistributionGraph_assets_def Let_def shl1_pow length_count_bucket_assets)

text \<open>
  The version of \<^verbatim>\<open>unnamed/part_001\<close> keeps the invariant of the specification in both
  branches: the counts add up to the number of values in range.
\<close>

lemma renderDistributionGraph_sum:
  assumes "1 \<le> numBits" and "numBits \<le> 30"
    and "renderDistributionGraph numbers numBits = Some (labels, counts)"
  shows "sum_list counts = count_in_range numbers (2 ^ nat numBits - 1)"
proof (cases "2 ^ nat numBits - 1 \<le> (4096::int)")
  case True
  have "int (length (replicate (2 ^ nat numBits) (0::nat))) = 2 ^ nat numBits - 1 + 1"
    by simp
  then have "sum_list (foldl (count_exact (2 ^ nat numBits - 1)) (replicate (2 ^ nat numBits) 0)
        (finite_values numbers))
      = sum_list (replicate (2 ^ nat numBits) (0::nat))
        + length (filter (\<lambda>n. 0 \<le> n \<and> n \<le> 2 ^ nat numBits - 1) (finite_values numbers))"
    by (rule sum_count_exact)
  then have "sum_list (foldl (count_exact (2 ^ nat numBits - 1)) (replicate (2 ^ nat numBits) 0)
        (finite_values numbers)) = count_in_range numbers (2 ^ nat numBits - 1)"
    by (simp only: count_in_range_finite_values) simp
  then show ?thesis
    using assms(3) renderDistributionGraph_exact [OF assms(1,2) True, of numbers]
    by simp
next
  case False
  have nz: "(2::int) ^ nat numBits - 1 \<noteq> 0"
    using maxValue_positive [OF assms(1,2)] by simp
  have "sum_list (foldl (count_bucket (2 ^ nat numBits - 1)) (replicate 256 0)
        (finite_values numbers))
      = sum_list (replicate 256 (0::nat))
        + length (filter (\<lambda>n. 0 \<le> n \<and> n \<le> 2 ^ nat numBits - 1) (finite_values numbers))"
    using nz by (intro sum_count_bucket) simp_all
  then have "sum_list (foldl (count_bucket (2 ^ nat numBits - 1)) (replicate 256 0)
        (finite_values numbers)) = count_in_range numbers (2 ^ nat numBits - 1)"
    by (simp only: count_in_range_finite_values) simp
  then show ?thesis
    using assms(3) renderDistributionGraph_bucket [OF assms(1,2) False, of numbers]
    by simp
qed

section \<open>Claims about the distribution chart\<close>



text \<open>
  Claim C4 says that in both branches the counts add up to the number of input values in
  range, values out of range falling into no bucket. In the bucket branch of
  \<^verbatim>\<open>frontend/assets/app.js\<close> the only check is \<^verbatim>\<open>Number.isFinite\<close>: with 16 bits, the
  value 70000 (above \<open>2^16 - 1\<close>) is clamped into bucket 255 and counted, so the counts add
  up to 1 while no input value is in range.
\<close>

theorem renderDistributionGraph_assets_counts_out_of_range:
  "\<exists>labels counts.
     renderDistributionGraph_assets [Fin 70000] 16 = Some (labels, counts)
     \<and> sum_list counts = 1 \<and> counts ! 255 = 1
     \<and> count_in_range [Fin 70000] (2 ^ 16 - 1) = 0"
proof -
  have h: "(1::int) \<le> 16" "(16::int) \<le> 30" "\<not> 2 ^ nat 16 - 1 \<le> (4096::int)" by simp_all
  have nz: "(2::int) ^ nat 16 - 1 \<noteq> 0" by simp
  have s: "sum_list (foldl (count_bucket_assets (2 ^ nat 16 - 1)) (replicate 256 0) [Fin 70000]) = 1"
    using sum_count_bucket_assets [OF nz, of "replicate 256 0" "[Fin 70000]"] by simp
  have n: "foldl (count_bucket_assets (2 ^ nat 16 - 1)) (replicate 256 0) [Fin 70000] ! 255 = 1"
    using nth_count_bucket_assets [OF nz, of "replicate 256 0" 255 "[Fin 70000]"]
    by (simp add: finite_in_bucket_def clamped_bucket_def)
  have c: "count_in_range [Fin 70000] (2 ^ 16 - 1) = 0"
    by (simp add: count_in_range_def in_range_def)
  show ?thesis
    using s n c by (simp add: renderDistributionGraph_assets_bucket [OF h])
qed

section \<open>Properties of the generate handlers\<close>

lemma process_script_lastResponse:
  "lastResponse (snd (process_script renderHistogram data p)) = lastResponse p"
  by (simp add: process_script_def Let_def split: jv.splits option.splits)

lemma genBtn_click_lastResponse:
  "lastResponse (genBtn_click renderHistogram api num_bits num_samples p)
     = (case validate_script num_bits num_samples of
          Some msg \<Rightarrow> lastResponse p
        | None \<Rightarrow>
            (case api (request_body num_bits num_samples) of
               Inl e \<Rightarrow> lastResponse p
             | Inr data \<Rightarrow> data))"
proof (cases "validate_script num_bits num_samples")
  case None
  show ?thesis
  proof (cases "api (request_body num_bits num_samples)")
    case (Inl e)
    with None show ?thesis by (simp add: genBtn_click_def Let_def)
  next
    case (Inr data)
    let ?p = "p\<lparr>errorBox := None, requests := requests p @ [request_body num_bits num_samples],
               lastResponse := data\<rparr>"
    obtain r p' where r: "process_script renderHistogram data ?p = (r, p')"
      by (cases "process_script renderHistogram data ?p")
    then have "lastResponse p' = data"
      using process_script_lastResponse [of renderHistogram data ?p] by simp
    with None Inr r show ?thesis
      by (cases r) (simp_all add: genBtn_click_def Let_def)
  qed
next
  case (Some msg)
  then show ?thesis by (simp add: genBtn_click_def Let_def)
qed

lemma generate_try_app_lastResponse:
  "lastResponse (snd (generate_try_app render apiPost b s f p))
     = (case apiPost (generate_request_app b s f) of Inl e \<Rightarrow> lastResponse p | Inr res \<Rightarrow> res)"
  by (simp add: generate_try_app_def Let_def showToast_def split: sum.splits option.splits)

lemma generate_click_app_lastResponse:
  "lastResponse (generate_click_app render apiPost p)
     = (case validate_app p of
          Inl msg \<Rightarrow> lastResponse p
        | Inr (num_bits, num_samples, format) \<Rightarrow>
            (case apiPost (generate_request_app num_bits num_samples format) of
               Inl e \<Rightarrow> lastResponse p
             | Inr res \<Rightarrow> res))"
proof (cases "validate_app p")
  case (Inl msg)
  then show ?thesis by (simp add: generate_click_app_def showToast_def)
next
  case (Inr t)
  obtain b s f where t: "t = (b, s, f)" by (cases t)
  obtain r p' where r: "generate_try_app render apiPost b s f p = (r, p')"
    by (cases "generate_try_app render apiPost b s f p")
  then have "lastResponse p' =
      (case apiPost (generate_request_app b s f) of Inl e \<Rightarrow> lastResponse p | Inr res \<Rightarrow> res)"
    using generate_try_app_lastResponse [of render apiPost b s f p] by simp
  with Inr t r show ?thesis
    by (cases r) (simp_all add: generate_click_app_def showToast_def)
qed

lemma updateStatistics_lastResponse: "lastResponse (updateStatistics c p) = lastResponse p"
  by (simp add: updateStatistics_def Let_def)

lemma updateStatistics_toasts: "toasts (updateStatistics c p) = toasts p"
  by (simp add: updateStatistics_def Let_def)

lemma updateStatistics_requests: "requests (updateStatistics c p) = requests p"
  by (simp add: updateStatistics_def Let_def)

lemma generate_try_lastResponse:
  "lastResponse (snd (generate_try backend bits samples p))
     = (case backend (generate_request bits samples) of
          Inl e \<Rightarrow> lastResponse p
        | Inr data \<Rightarrow>
            if nullish data \<or> field data ''status'' \<noteq> Str ''success'' then lastResponse p else data)"
  by (simp add: generate_try_def Let_def showToast_def updateStatistics_lastResponse
      split: sum.splits jv.splits)

lemma generate_click_lastResponse:
  "lastResponse (generate_click backend p)
     = (case validate p of
          Inl msg \<Rightarrow> lastResponse p
        | Inr (bits, samples) \<Rightarrow>
            (case backend (generate_request bits samples) of
               Inl e \<Rightarrow> lastResponse p
             | Inr data \<Rightarrow>
                 if nullish data \<or> field data ''status'' \<noteq> Str ''success''
                 then lastResponse p else data))"
proof (cases "validate p")
  case (Inl msg)
  then show ?thesis by (simp add: generate_click_def showToast_def)
next
  case (Inr t)
  obtain b s where t: "t = (b, s)" by (cases t)
  obtain r p' where r: "generate_try backend b s p = (r, p')"
    by (cases "generate_try backend b s p")
  then have "lastResponse p' =
      (case backend (generate_request b s) of
         Inl e \<Rightarrow> lastResponse p
       | Inr data \<Rightarrow>
           if nullish data \<or> field data ''status'' \<noteq> Str ''success'' then lastResponse p else data)"
    using generate_try_lastResponse [of backend b s p] by simp
  with Inr t r show ?thesis
    by (cases r) (simp_all add: generate_click_def showToast_def)
qed

section \<open>Claims about the generate handlers\<close>

text \<open>
  Claim C1, as stated: the last-result slot is overwritten only when the attempt
  succeeds, and any failure, also one in the processing of the response, leaves its
  previous value in place. In \<^verbatim>\<open>frontend/script.js\<close> the slot holds an earlier payload
  and the backend answers with numbers and no \<^verbatim>\<open>statistics\<close>: \<^verbatim>\<open>renderStats\<close> raises
  a \<^verbatim>\<open>TypeError\<close>, the error box shows it, and the slot holds the new payload. In
  \<^verbatim>\<open>frontend/app.js\<close> the backend answers \<^verbatim>\<open>null\<close>: the attempt ends in the failure
  toast and the slot is \<^verbatim>\<open>null\<close>.
\<close>

theorem lastResponse_overwritten_counterexample:
  "lastResponse page_with_result = earlier_payload
   \<and> lastResponse (genBtn_click draws (returns bare_payload) (Fin 8) (Fin 5) page_with_result)
       = bare_payload
   \<and> errorBox (genBtn_click draws (returns bare_payload) (Fin 8) (Fin 5) page_with_result)
       = Some (EngineText [] TypeError)
   \<and> bare_payload \<noteq> earlier_payload
   \<and> lastResponse (generate_click_app renders (returns Null) page_with_result) = Null
   \<and> toasts (generate_click_app renders (returns Null) page_with_result)
       = [(EngineText ''Generation failed: '' TypeError, ''error'')]"
  by code_simp

text \<open>
  Claim C1, amended: the last-result slot is overwritten exactly when the request
  passes the checks of the handler and the backend call returns a payload (in
  \<^verbatim>\<open>unnamed/part_001\<close>: a payload whose status is \<^verbatim>\<open>'success'\<close>); it then holds that
  payload, whatever happens in the processing that follows. When a check rejects the
  input, the backend call throws or the status check fails, the slot holds the value it
  held before. This is stated for the handlers of \<^verbatim>\<open>frontend/script.js\<close>,
  \<^verbatim>\<open>frontend/app.js\<close> and \<^verbatim>\<open>unnamed/part_001\<close>, for every behaviour of the rendering
  functions they take as parameters.
\<close>

theorem lastResponse_after_attempt:
  "lastResponse (genBtn_click renderHistogram api num_bits num_samples p)
     = (case validate_script num_bits num_samples of
          Some msg \<Rightarrow> lastResponse p
        | None \<Rightarrow>
            (case api (request_body num_bits num_samples) of
               Inl e \<Rightarrow> lastResponse p
             | Inr data \<Rightarrow> data))
   \<and> lastResponse (generate_click_app renderGenerationResult apiPost p)
     = (case validate_app p of
          Inl msg \<Rightarrow> lastResponse p
        | Inr (num_bits, num_samples, format) \<Rightarrow>
            (case apiPost (generate_request_app num_bits num_samples format) of
               Inl e \<Rightarrow> lastResponse p
             | Inr res \<Rightarrow> res))
   \<and> lastResponse (generate_click backend p)
     = (case validate p of
          Inl msg \<Rightarrow> lastResponse p
        | Inr (bits, samples) \<Rightarrow>
            (case backend (generate_request bits samples) of
               Inl e \<Rightarrow> lastResponse p
             | Inr data \<Rightarrow>
                 if nullish data \<or> field data ''status'' \<noteq> Str ''success''
                 then lastResponse p else data))"
  by (simp only: genBtn_click_lastResponse generate_click_app_lastResponse
      generate_click_lastResponse simp_thms)


lemma generate_click_app_rejected:
  "validate_app p = Inl msg \<Longrightarrow> generate_click_app render apiPost p = showToast msg ''error'' p"
  by (simp add: generate_click_app_def)

lemma generate_click_assets_rejected:
  "validate_assets p = Inl msg \<Longrightarrow> generate_click_assets backend p = showToast msg ''error'' p"
  by (simp add: generate_click_assets_def)

lemma validate_app_bits:
  assumes "has_token p \<or> isGuestMode p"
    and "\<forall>b. field_int (numBits_value p) 8 = Some b \<longrightarrow> b < 1 \<or> 16 < b"
  shows "validate_app p = Inl (Text ''Number of bits must be between 1 and 16'')"
  using assms by (auto simp: validate_app_def Let_def split: option.splits)

lemma validate_app_samples:
  assumes "has_token p \<or> isGuestMode p"
    and "field_int (numBits_value p) 8 = Some b" and "1 \<le> b" and "b \<le> 16"
    and "\<forall>s. field_int (numSamples_value p) 10 = Some s \<longrightarrow> s < 1 \<or> 5000 < s"
  shows "validate_app p = Inl (Text ''Number of samples must be between 1 and 5000'')"
  using assms by (auto simp: validate_app_def Let_def split: option.splits)

lemma validate_app_out_of_range:
  assumes "(\<forall>b. field_int (numBits_value p) 8 = Some b \<longrightarrow> b < 1 \<or> 16 < b)
         \<or> (\<forall>s. field_int (numSamples_value p) 10 = Some s \<longrightarrow> s < 1 \<or> 5000 < s)"
  shows "\<exists>msg. validate_app p = Inl (Text msg)"
  using assms by (auto simp: validate_app_def Let_def split: option.splits)

lemma validate_assets_out_of_range:
  assumes "numBits_value p = Some bitsText" and "numSamples_value p = Some samplesText"
    and "(\<forall>b. parseInt bitsText 10 = Some b \<longrightarrow> 16 < b)
         \<or> (\<forall>s. parseInt samplesText 10 = Some s \<longrightarrow> s < 1 \<or> 5000 < s)"
  shows "\<exists>msg. validate_assets p = Inl (Text msg)"
  using assms
  by (auto simp: validate_assets_def Let_def MAX_BITS_def MAX_SAMPLES_def split: option.splits)

lemma validate_assets_clamps:
  assumes "numBits_value p = Some bitsText" and "numSamples_value p = Some samplesText"
    and "parseInt bitsText 10 = Some b" and "b < 1"
    and "parseInt samplesText 10 = Some s" and "1 \<le> s" and "s \<le> 5000"
  shows "validate_assets p = Inr (1, s)"
  using assms by (simp add: validate_assets_def Let_def MAX_BITS_def MAX_SAMPLES_def)

lemma generate_try_assets_requests:
  "requests (snd (generate_try_assets backend b s p)) = requests p @ [generate_request b s]"
  by (simp add: generate_try_assets_def updateStatistics_assets_def Let_def
      split: sum.splits jv.splits option.splits prod.splits)

lemma generate_click_assets_requests:
  assumes "validate_assets p = Inr (b, s)"
  shows "requests (generate_click_assets backend p) = requests p @ [generate_request b s]"
proof -
  obtain r p' where r: "generate_try_assets backend b s p = (r, p')"
    by (cases "generate_try_assets backend b s p")
  then have "requests p' = requests p @ [generate_request b s]"
    using generate_try_assets_requests [of backend b s p] by simp
  with assms r show ?thesis
    by (cases r) (simp_all add: generate_click_assets_def showToast_def)
qed

text \<open>
  Claim C3, as stated: whenever the parsed \<open>numBits\<close> is not an integer from 1 to 16, for
  instance 0, the generate handler reports a validation error and never calls the
  backend. The handler of \<^verbatim>\<open>frontend/assets/app.js\<close> raises a \<open>numBits\<close> below 1 to 1
  (\<^verbatim>\<open>if (numBits < 1) numBits = 1;\<close>) and goes on: with 0 in the field it shows no
  error and posts a request for 1 bit.
\<close>

theorem generate_click_assets_clamp_counterexample:
  "numBits_value page_0_bits = Some ''0''
   \<and> parseInt ''0'' 10 = Some 0
   \<and> requests (generate_click_assets (returns earlier_payload) page_0_bits)
       = [Obj [(''num_bits'', Num 1), (''num_samples'', Num 5)]]
   \<and> toasts (generate_click_assets (returns earlier_payload) page_0_bits) = []"
  by code_simp

text \<open>
  Claim C3, amended. In \<^verbatim>\<open>frontend/app.js\<close>: when the parsed \<open>numBits\<close> is not an integer
  from 1 to 16 or the parsed \<open>numSamples\<close> not one from 1 to 5000, the handler shows one
  error toast, posts no request and leaves the last result alone; for a visitor who may
  generate, the toast is the message of the first check that fails. In
  \<^verbatim>\<open>frontend/assets/app.js\<close>: the same holds when \<open>numBits\<close> is not a number or above 16,
  or \<open>numSamples\<close> is not a number from 1 to 5000; a \<open>numBits\<close> below 1 is raised to 1 and,
  with \<open>numSamples\<close> in range, the request is posted with \<open>num_bits = 1\<close>.
\<close>

theorem out_of_range_rejected_before_request:
  "(((\<forall>b. field_int (numBits_value p) 8 = Some b \<longrightarrow> b < 1 \<or> 16 < b)
      \<or> (\<forall>s. field_int (numSamples_value p) 10 = Some s \<longrightarrow> s < 1 \<or> 5000 < s))
     \<longrightarrow> (\<exists>msg. generate_click_app renderGenerationResult apiPost p
                    = showToast (Text msg) ''error'' p)
         \<and> requests (generate_click_app renderGenerationResult apiPost p) = requests p
         \<and> lastResponse (generate_click_app renderGenerationResult apiPost p) = lastResponse p)
   \<and> ((has_token p \<or> isGuestMode p)
       \<and> (\<forall>b. field_int (numBits_value p) 8 = Some b \<longrightarrow> b < 1 \<or> 16 < b)
     \<longrightarrow> generate_click_app renderGenerationResult apiPost p
           = showToast (Text ''Number of bits must be between 1 and 16'') ''error'' p)
   \<and> ((has_token p \<or> isGuestMode p)
       \<and> (\<exists>b. field_int (numBits_value p) 8 = Some b \<and> 1 \<le> b \<and> b \<le> 16)
       \<and> (\<forall>s. field_int (numSamples_value p) 10 = Some s \<longrightarrow> s < 1 \<or> 5000 < s)
     \<longrightarrow> generate_click_app renderGenerationResult apiPost p
           = showToast (Text ''Number of samples must be between 1 and 5000'') ''error'' p)
   \<and> (numBits_value p = Some bitsText \<and> numSamples_value p = Some samplesText
       \<and> ((\<forall>b. parseInt bitsText 10 = Some b \<longrightarrow> 16 < b)
           \<or> (\<forall>s. parseInt samplesText 10 = Some s \<longrightarrow> s < 1 \<or> 5000 < s))
     \<longrightarrow> (\<exists>msg. generate_click_assets backend p = showToast (Text msg) ''error'' p)
         \<and> requests (generate_click_assets backend p) = requests p
         \<and> lastResponse (generate_click_assets backend p) = lastResponse p)
   \<and> (numBits_value p = Some bitsText \<and> numSamples_value p = Some samplesText
       \<and> (\<exists>b. parseInt bitsText 10 = Some b \<and> b < 1)
       \<and> parseInt samplesText 10 = Some s \<and> 1 \<le> s \<and> s \<le> 5000
     \<longrightarrow> requests (generate_click_assets backend p) = requests p @ [generate_request 1 s])"
proof (intro conjI impI)
  assume a: "(\<forall>b. field_int (numBits_value p) 8 = Some b \<longrightarrow> b < 1 \<or> 16 < b)
      \<or> (\<forall>s. field_int (numSamples_value p) 10 = Some s \<longrightarrow> s < 1 \<or> 5000 < s)"
  then obtain msg where m: "validate_app p = Inl (Text msg)"
    using validate_app_out_of_range by blast
  then have e: "generate_click_app renderGenerationResult apiPost p = showToast (Text msg) ''error'' p"
    by (rule generate_click_app_rejected)
  then show "\<exists>msg. generate_click_app renderGenerationResult apiPost p
      = showToast (Text msg) ''error'' p" by blast
  show "requests (generate_click_app renderGenerationResult apiPost p) = requests p"
    by (simp add: e showToast_def)
  show "lastResponse (generate_click_app renderGenerationResult apiPost p) = lastResponse p"
    by (simp add: e showToast_def)
next
  assume "(has_token p \<or> isGuestMode p)
      \<and> (\<forall>b. field_int (numBits_value p) 8 = Some b \<longrightarrow> b < 1 \<or> 16 < b)"
  then have "validate_app p = Inl (Text ''Number of bits must be between 1 and 16'')"
    using validate_app_bits by blast
  then show "generate_click_app renderGenerationResult apiPost p
      = showToast (Text ''Number of bits must be between 1 and 16'') ''error'' p"
    by (rule generate_click_app_rejected)
next
  assume "(has_token p \<or> isGuestMode p)
      \<and> (\<exists>b. field_int (numBits_value p) 8 = Some b \<and> 1 \<le> b \<and> b \<le> 16)
      \<and> (\<forall>s. field_int (numSamples_value p) 10 = Some s \<longrightarrow> s < 1 \<or> 5000 < s)"
  then have "validate_app p = Inl (Text ''Number of samples must be between 1 and 5000'')"
    using validate_app_samples by blast
  then show "generate_click_app renderGenerationResult apiPost p
      = showToast (Text ''Number of samples must be between 1 and 5000'') ''error'' p"
    by (rule generate_click_app_rejected)
next
  assume a: "numBits_value p = Some bitsText \<and> numSamples_value p = Some samplesText
      \<and> ((\<forall>b. parseInt bitsText 10 = Some b \<longrightarrow> 16 < b)
          \<or> (\<forall>s. parseInt samplesText 10 = Some s \<longrightarrow> s < 1 \<or> 5000 < s))"
  then obtain msg where m: "validate_assets p = Inl (Text msg)"
    using validate_assets_out_of_range [of p bitsText samplesText] by blast
  then have e: "generate_click_assets backend p = showToast (Text msg) ''error'' p"
    by (rule generate_click_assets_rejected)
  then show "\<exists>msg. generate_click_assets backend p = showToast (Text msg) ''error'' p" by blast
  show "requests (generate_click_assets backend p) = requests p"
    by (simp add: e showToast_def)
  show "lastResponse (generate_click_assets backend p) = lastResponse p"
    by (simp add: e showToast_def)
next
  assume a: "numBits_value p = Some bitsText \<and> numSamples_value p = Some samplesText
      \<and> (\<exists>b. parseInt bitsText 10 = Some b \<and> b < 1)
      \<and> parseInt samplesText 10 = Some s \<and> 1 \<le> s \<and> s \<le> 5000"
  then have "validate_assets p = Inr (1, s)"
    using validate_assets_clamps [of p bitsText samplesText _ s] by blast
  then show "requests (generate_click_assets backend p) = requests p @ [generate_request 1 s]"
    by (rule generate_click_assets_requests)
qed

theorem out_of_range_rejected_before_request_witness:
  "generate_click_app renders (returns earlier_payload) page_20_bits
     = showToast (Text ''Number of bits must be between 1 and 16'') ''error'' page_20_bits
   \<and> requests (generate_click_app renders (returns earlier_payload) page_20_bits) = []
   \<and> requests (generate_click_assets (returns earlier_payload) page_20_bits) = []
   \<and> requests (generate_click_assets (returns earlier_payload) page_0_bits)
       = [generate_request 1 5]"
proof -
  note t = out_of_range_rejected_before_request
    [of page_20_bits renders "returns earlier_payload" "''20''" "''5''" "returns earlier_payload" 5]
  note u = out_of_range_rejected_before_request
    [of page_0_bits renders "returns earlier_payload" "''0''" "''5''" "returns earlier_payload" 5]
  have f20: "field_int (numBits_value page_20_bits) 8 = Some 20"
    by code_simp
  have v20: "numBits_value page_20_bits = Some ''20''" "numSamples_value page_20_bits = Some ''5''"
    "isGuestMode page_20_bits" "requests page_20_bits = []"
    by (simp_all add: page_20_bits_def fresh_page_def)
  have v0: "numBits_value page_0_bits = Some ''0''" "numSamples_value page_0_bits = Some ''5''"
    "requests page_0_bits = []"
    by (simp_all add: page_0_bits_def fresh_page_def)
  have p20: "parseInt ''20'' 10 = Some 20" by code_simp
  have p0: "parseInt ''0'' 10 = Some 0" by code_simp
  have p5: "parseInt ''5'' 10 = Some 5" by code_simp
  have a: "generate_click_app renders (returns earlier_payload) page_20_bits
     = showToast (Text ''Number of bits must be between 1 and 16'') ''error'' page_20_bits"
    using t f20 v20 by simp
  have b: "requests (generate_click_app renders (returns earlier_payload) page_20_bits) = []"
    using t f20 v20 by (simp add: showToast_def)
  have c: "requests (generate_click_assets (returns earlier_payload) page_20_bits) = []"
    using t v20 p20 by simp
  have d: "requests (generate_click_assets (returns earlier_payload) page_0_bits)
       = [generate_request 1 5]"
    using u v0 p0 p5 by simp
  from a b c d show ?thesis by blast
qed

lemma updateStatistics_flat:
  assumes "truthy c" and "nullish (field c ''statistics'')" and "nullish (field c ''stats'')"
  shows "statistics_shown (updateStatistics c p) ''meanValue'' = Some (coalesce (field c ''mean'') (Num 0))"
    and "statistics_shown (updateStatistics c p) ''stdValue'' = Some (coalesce (field c ''std'') (Num 0))"
    and "statistics_shown (updateStatistics c p) ''minValue'' = Some (coalesce (field c ''min'') (Num 0))"
    and "statistics_shown (updateStatistics c p) ''maxValue'' = Some (coalesce (field c ''max'') (Num 0))"
  using assms
  by (auto simp: updateStatistics_def Let_def or_else_def coalesce_def opt_field_def)

lemma generate_try_statistics:
  assumes "backend (generate_request bits samples) = Inr data"
    and "field data ''status'' = Str ''success''"
  shows "statistics_shown (snd (generate_try backend bits samples p))
     = statistics_shown (updateStatistics
         (coalesce (field data ''stats'') (coalesce (field data ''statistics'') data)) p)"
proof -
  have nn: "\<not> nullish data" using assms(2) by (cases data) auto
  show ?thesis
    using assms nn
    by (simp add: generate_try_def Let_def showToast_def updateStatistics_def split: jv.splits)
qed

lemma generate_click_statistics:
  assumes "validate p = Inr (bits, samples)"
    and "backend (generate_request bits samples) = Inr data"
    and "field data ''status'' = Str ''success''"
  shows "statistics_shown (generate_click backend p)
     = statistics_shown (updateStatistics
         (coalesce (field data ''stats'') (coalesce (field data ''statistics'') data)) p)"
proof -
  obtain r p' where r: "generate_try backend bits samples p = (r, p')"
    by (cases "generate_try backend bits samples p")
  then have "statistics_shown p' = statistics_shown (updateStatistics
         (coalesce (field data ''stats'') (coalesce (field data ''statistics'') data)) p)"
    using generate_try_statistics [of backend bits samples data p] assms(2,3) by simp
  with assms(1) r show ?thesis
    by (cases r) (simp_all add: generate_click_def showToast_def)
qed

text \<open>
  Claim C5, as stated: the statistics are taken from \<^verbatim>\<open>statistics\<close> first, then from
  \<^verbatim>\<open>stats\<close>, and for a payload that carries both, the values under \<^verbatim>\<open>statistics\<close>
  are the ones used. The handler of \<^verbatim>\<open>unnamed/part_001\<close> picks
  \<^verbatim>\<open>data.stats ?? data.statistics ?? data\<close> before it calls \<^verbatim>\<open>updateStatistics\<close>: for
  a payload with the mean 1 under \<^verbatim>\<open>statistics\<close> and the mean 2 under \<^verbatim>\<open>stats\<close>, the
  panel shows the values of \<^verbatim>\<open>stats\<close>.
\<close>

theorem statistics_precedence_counterexample:
  "field (field double_payload ''statistics'') ''mean'' = Num 1
   \<and> field (field double_payload ''stats'') ''mean'' = Num 2
   \<and> statistics_shown (generate_click (returns double_payload) fresh_page) ''meanValue'' = Some (Num 2)
   \<and> statistics_shown (generate_click (returns double_payload) fresh_page) ''maxValue'' = Some (Num 2)"
  by code_simp

text \<open>
  Claim C5, amended. For a payload that passes the status check, the handler hands
  \<open>c = data.stats ?? data.statistics ?? data\<close> to \<^verbatim>\<open>updateStatistics\<close>, which reads
  \<^verbatim>\<open>mean\<close>, \<^verbatim>\<open>std\<close>, \<^verbatim>\<open>min\<close> and \<^verbatim>\<open>max\<close> from \<open>c.statistics ?? c.stats ?? c\<close> and puts
  0 for a value that is missing; nothing is computed from \<^verbatim>\<open>numbers\<close>. So when \<open>c\<close> is
  an object without statistics nested in it, the panel shows the values of \<open>c\<close>: those
  under \<^verbatim>\<open>stats\<close> when the payload has that field, also when it has \<^verbatim>\<open>statistics\<close> as
  well; those under \<^verbatim>\<open>statistics\<close> when \<^verbatim>\<open>stats\<close> is missing; the top-level ones of
  the payload when both are missing.
\<close>

theorem statistics_source:
  assumes "validate p = Inr (bits, samples)"
    and "backend (generate_request bits samples) = Inr data"
    and "field data ''status'' = Str ''success''"
    and "c = coalesce (field data ''stats'') (coalesce (field data ''statistics'') data)"
    and "truthy c" and "nullish (field c ''statistics'')" and "nullish (field c ''stats'')"
  shows "statistics_shown (generate_click backend p) ''meanValue'' = Some (coalesce (field c ''mean'') (Num 0))
       \<and> statistics_shown (generate_click backend p) ''stdValue'' = Some (coalesce (field c ''std'') (Num 0))
       \<and> statistics_shown (generate_click backend p) ''minValue'' = Some (coalesce (field c ''min'') (Num 0))
       \<and> statistics_shown (generate_click backend p) ''maxValue'' = Some (coalesce (field c ''max'') (Num 0))
       \<and> (\<not> nullish (field data ''stats'') \<longrightarrow> c = field data ''stats'')
       \<and> (nullish (field data ''stats'') \<and> \<not> nullish (field data ''statistics'')
            \<longrightarrow> c = field data ''statistics'')
       \<and> (nullish (field data ''stats'') \<and> nullish (field data ''statistics'') \<longrightarrow> c = data)"
proof -
  have s: "statistics_shown (generate_click backend p) = statistics_shown (updateStatistics c p)"
    using generate_click_statistics [of p bits samples backend data] assms(1,2,3,4) by simp
  have "c = field data ''stats''" if "\<not> nullish (field data ''stats'')"
    using that assms(4) by (simp add: coalesce_def)
  moreover have "c = field data ''statistics''"
    if "nullish (field data ''stats'') \<and> \<not> nullish (field data ''statistics'')"
    using that assms(4) by (simp add: coalesce_def)
  moreover have "c = data" if "nullish (field data ''stats'') \<and> nullish (field data ''statistics'')"
    using that assms(4) by (simp add: coalesce_def)
  ultimately show ?thesis
    using updateStatistics_flat [OF assms(5,6,7), of p] by (simp add: s)
qed

theorem statistics_source_witness:
  "statistics_shown (generate_click (returns double_payload) fresh_page) ''meanValue''
     = Some (coalesce (field (field double_payload ''stats'') ''mean'') (Num 0))
   \<and> statistics_shown (generate_click (returns bare_payload_ok) fresh_page) ''meanValue''
     = Some (Num 0)"
proof -
  have v: "validate fresh_page = Inr (8, 5)" by code_simp
  have b: "returns double_payload (generate_request 8 5) = Inr double_payload"
    by (simp add: returns_def)
  have st: "field double_payload ''status'' = Str ''success''" by code_simp
  have c: "field double_payload ''stats''
      = coalesce (field double_payload ''stats'') (coalesce (field double_payload ''statistics'') double_payload)"
    by code_simp
  have t: "truthy (field double_payload ''stats'')"
    "nullish (field (field double_payload ''stats'') ''statistics'')"
    "nullish (field (field double_payload ''stats'') ''stats'')"
    by code_simp+
  note r = statistics_source [of fresh_page 8 5 "returns double_payload" double_payload
      "field double_payload ''stats''", OF v b st c t]
  have b2: "returns bare_payload_ok (generate_request 8 5) = Inr bare_payload_ok"
    by (simp add: returns_def)
  have st2: "field bare_payload_ok ''status'' = Str ''success''" by code_simp
  have c2: "bare_payload_ok
      = coalesce (field bare_payload_ok ''stats'') (coalesce (field bare_payload_ok ''statistics'') bare_payload_ok)"
    by code_simp
  have t2: "truthy bare_payload_ok"
    "nullish (field bare_payload_ok ''statistics'')"
    "nullish (field bare_payload_ok ''stats'')"
    by code_simp+
  note r2 = statistics_source [of fresh_page 8 5 "returns bare_payload_ok" bare_payload_ok
      bare_payload_ok, OF v b2 st2 c2 t2]
  have m: "coalesce (field bare_payload_ok ''mean'') (Num 0) = Num 0" by code_simp
  from r r2 m show ?thesis by simp
qed

lemma updateStatistics_table: "table_shown (updateStatistics c p) = table_shown p"
  by (simp add: updateStatistics_def Let_def)

lemma generate_try_rejects_status:
  assumes "backend (generate_request bits samples) = Inr data"
    and "\<not> nullish data" and "field data ''status'' \<noteq> Str ''success''"
  shows "generate_try backend bits samples p
     = (Some (Error (toString_jv (or_else (field data ''message'') (Str ''Generation error'')))),
        p\<lparr>table_shown := Skeleton, requests := requests p @ [generate_request bits samples]\<rparr>)"
  using assms by (simp add: generate_try_def Let_def)

lemma generate_try_accepts:
  assumes "backend (generate_request bits samples) = Inr data"
    and "field data ''status'' = Str ''success''"
    and "or_else (field data ''numbers'') (Arr []) = Arr ns"
  shows "fst (generate_try backend bits samples p) = None"
    and "table_shown (snd (generate_try backend bits samples p)) = Rows ns (Num bits)"
    and "chart_shown (snd (generate_try backend bits samples p)) = Some (ns, Num bits)"
    and "\<exists>text. toasts (snd (generate_try backend bits samples p)) = toasts p @ [(Text text, ''success'')]"
proof -
  have nn: "\<not> nullish data" using assms(2) by (cases data) auto
  show "fst (generate_try backend bits samples p) = None"
    using assms nn by (simp add: generate_try_def Let_def)
  show "table_shown (snd (generate_try backend bits samples p)) = Rows ns (Num bits)"
    using assms nn by (simp add: generate_try_def Let_def showToast_def)
  show "chart_shown (snd (generate_try backend bits samples p)) = Some (ns, Num bits)"
    using assms nn by (simp add: generate_try_def Let_def showToast_def)
  show "\<exists>text. toasts (snd (generate_try backend bits samples p)) = toasts p @ [(Text text, ''success'')]"
    using assms nn
    by (simp add: generate_try_def Let_def showToast_def updateStatistics_toasts)
qed

text \<open>
  Claim C6, as stated: the status error is raised only for a payload with an explicit
  status that is not a success marker, and a payload that omits the status field and
  has valid \<^verbatim>\<open>numbers\<close> is processed without an error. The handler of
  \<^verbatim>\<open>unnamed/part_001\<close> tests \<^verbatim>\<open>data.status !== 'success'\<close>, which a missing status
  satisfies: for the payload that holds the five numbers of the specification's
  scenario and nothing else, it throws \<^verbatim>\<open>Generation error\<close>, shows it, and keeps no
  result.
\<close>

theorem missing_status_counterexample:
  "field bare_payload ''status'' = Undefined
   \<and> field bare_payload ''numbers'' = Arr [Num 0, Num 255, Num 128, Num 1, Num 254]
   \<and> fst (generate_try (returns bare_payload) 8 5 fresh_page) = Some (Error ''Generation error'')
   \<and> toasts (generate_click (returns bare_payload) fresh_page) = [(Text ''Generation error'', ''error'')]
   \<and> table_shown (generate_click (returns bare_payload) fresh_page) = Failure (Text ''Generation error'')
   \<and> lastResponse (generate_click (returns bare_payload) fresh_page) = Null"
  by code_simp

text \<open>
  Claim C6, amended. The handler of \<^verbatim>\<open>unnamed/part_001\<close> throws for every payload whose
  \<^verbatim>\<open>status\<close> is not the string \<^verbatim>\<open>'success'\<close>, a payload without a status field
  included: the error carries the payload's \<^verbatim>\<open>message\<close>, or \<^verbatim>\<open>Generation error\<close>, the
  error toast and the result area show it, and the last result stays as it was. For a
  payload whose status is \<^verbatim>\<open>'success'\<close> no optional field is required: when
  \<^verbatim>\<open>numbers\<close> is an array, or is missing or falsy and so read as the empty array, nothing
  is thrown, the payload becomes the last result, and the table and the chart are drawn
  from the numbers.
\<close>

theorem status_check:
  assumes "validate p = Inr (bits, samples)"
    and "backend (generate_request bits samples) = Inr data"
    and "\<not> nullish data"
  shows "(field data ''status'' \<noteq> Str ''success'' \<longrightarrow>
            fst (generate_try backend bits samples p)
              = Some (Error (toString_jv (or_else (field data ''message'') (Str ''Generation error''))))
            \<and> toasts (generate_click backend p)
              = toasts p @
                [(message_or (Error (toString_jv (or_else (field data ''message'') (Str ''Generation error''))))
                    ''Generation failed'', ''error'')]
            \<and> table_shown (generate_click backend p)
              = Failure (message_or (Error (toString_jv (or_else (field data ''message'') (Str ''Generation error''))))
                    ''Generation failed'')
            \<and> lastResponse (generate_click backend p) = lastResponse p)
       \<and> (field data ''status'' = Str ''success''
            \<and> or_else (field data ''numbers'') (Arr []) = Arr ns \<longrightarrow>
            fst (generate_try backend bits samples p) = None
            \<and> lastResponse (generate_click backend p) = data
            \<and> table_shown (generate_click backend p) = Rows ns (Num bits)
            \<and> chart_shown (generate_click backend p) = Some (ns, Num bits)
            \<and> (\<exists>text. toasts (generate_click backend p) = toasts p @ [(Text text, ''success'')]))"
proof (intro conjI impI)
  assume st: "field data ''status'' \<noteq> Str ''success''"
  let ?e = "Error (toString_jv (or_else (field data ''message'') (Str ''Generation error'')))"
  have t: "generate_try backend bits samples p
     = (Some ?e, p\<lparr>table_shown := Skeleton, requests := requests p @ [generate_request bits samples]\<rparr>)"
    using generate_try_rejects_status [of backend bits samples data p] assms(2,3) st by simp
  show "fst (generate_try backend bits samples p) = Some ?e"
    by (simp add: t)
  show "toasts (generate_click backend p) = toasts p @ [(message_or ?e ''Generation failed'', ''error'')]"
    using assms(1) by (simp add: generate_click_def t showToast_def)
  show "table_shown (generate_click backend p) = Failure (message_or ?e ''Generation failed'')"
    using assms(1) by (simp add: generate_click_def t showToast_def)
  show "lastResponse (generate_click backend p) = lastResponse p"
    using assms(1) by (simp add: generate_click_def t showToast_def)
next
  assume a: "field data ''status'' = Str ''success'' \<and> or_else (field data ''numbers'') (Arr []) = Arr ns"
  note acc = generate_try_accepts [of backend bits samples data ns p]
  obtain r p' where r: "generate_try backend bits samples p = (r, p')"
    by (cases "generate_try backend bits samples p")
  have none: "r = None" using acc(1) assms(2) a r by simp
  then have click: "generate_click backend p = p'"
    using assms(1) r by (simp add: generate_click_def)
  show "fst (generate_try backend bits samples p) = None"
    using acc(1) assms(2) a by simp
  show "lastResponse (generate_click backend p) = data"
    using generate_try_lastResponse [of backend bits samples p] assms(2,3) a r
    by (simp add: click)
  show "table_shown (generate_click backend p) = Rows ns (Num bits)"
    using acc(2) assms(2) a r by (simp add: click)
  show "chart_shown (generate_click backend p) = Some (ns, Num bits)"
    using acc(3) assms(2) a r by (simp add: click)
  show "\<exists>text. toasts (generate_click backend p) = toasts p @ [(Text text, ''success'')]"
    using acc(4) assms(2) a r by (simp add: click)
qed

theorem status_check_witness:
  "lastResponse (generate_click (returns bare_payload) page_with_result) = lastResponse page_with_result
   \<and> fst (generate_try (returns bare_payload_ok) 8 5 page_with_result) = None
   \<and> lastResponse (generate_click (returns bare_payload_ok) page_with_result) = bare_payload_ok
   \<and> table_shown (generate_click (returns bare_payload_ok) page_with_result)
       = Rows [Num 0, Num 255, Num 128, Num 1, Num 254] (Num 8)"
proof -
  have v: "validate page_with_result = Inr (8, 5)" by code_simp
  have b1: "returns bare_payload (generate_request 8 5) = Inr bare_payload"
    by (simp add: returns_def)
  have n1: "\<not> nullish bare_payload" by (simp add: bare_payload_def)
  have s1: "field bare_payload ''status'' \<noteq> Str ''success''" by code_simp
  note r1 = status_check [of page_with_result 8 5 "returns bare_payload" bare_payload "[]", OF v b1 n1]
  have b2: "returns bare_payload_ok (generate_request 8 5) = Inr bare_payload_ok"
    by (simp add: returns_def)
  have n2: "\<not> nullish bare_payload_ok" by (simp add: bare_payload_ok_def)
  have s2: "field bare_payload_ok ''status'' = Str ''success''" by code_simp
  have a2: "or_else (field bare_payload_ok ''numbers'') (Arr [])
      = Arr [Num 0, Num 255, Num 128, Num 1, Num 254]" by code_simp
  note r2 = status_check [of page_with_result 8 5 "returns bare_payload_ok" bare_payload_ok
      "[Num 0, Num 255, Num 128, Num 1, Num 254]", OF v b2 n2]
  from r1 s1 have "lastResponse (generate_click (returns bare_payload) page_with_result)
      = lastResponse page_with_result" by blast
  moreover from r2 s2 a2 have "fst (generate_try (returns bare_payload_ok) 8 5 page_with_result) = None
     \<and> lastResponse (generate_click (returns bare_payload_ok) page_with_result) = bare_payload_ok
     \<and> table_shown (generate_click (returns bare_payload_ok) page_with_result)
         = Rows [Num 0, Num 255, Num 128, Num 1, Num 254] (Num 8)" by blast
  ultimately show ?thesis by blast
qed

section \<open>Clear and the exports\<close>

text \<open>
  Claim C10. Clear sets the last-result slot to \<^verbatim>\<open>null\<close> and touches the result and
  display state only: the input fields, the requests sent and the files downloaded are
  as before. In the state it leaves, and in every state whose last result is
  \<^verbatim>\<open>null\<close> (or otherwise falsy), a click on either download is a no-op: the state,
  its list of downloaded files included, is unchanged, since each handler returns at
  its first line unless a last result is held.
\<close>

theorem clear_then_exports_do_nothing:
  "lastResponse (clearBtn_click p) = Null
   \<and> numBits_value (clearBtn_click p) = numBits_value p
   \<and> numSamples_value (clearBtn_click p) = numSamples_value p
   \<and> numberFormat_value (clearBtn_click p) = numberFormat_value p
   \<and> baseUrl_value (clearBtn_click p) = baseUrl_value p
   \<and> authToken (clearBtn_click p) = authToken p
   \<and> isGuestMode (clearBtn_click p) = isGuestMode p
   \<and> toasts (clearBtn_click p) = toasts p
   \<and> requests (clearBtn_click p) = requests p
   \<and> downloads (clearBtn_click p) = downloads p
   \<and> downloadJson_click (clearBtn_click p) = clearBtn_click p
   \<and> downloadCsv_click (clearBtn_click p) = clearBtn_click p
   \<and> (\<not> truthy (lastResponse q) \<longrightarrow> downloadJson_click q = q \<and> downloadCsv_click q = q)
   \<and> (truthy (lastResponse q) \<longrightarrow>
        downloads (downloadJson_click q) = downloads q @ [(''qrng_response.json'', JsonOf (lastResponse q))])"
  by (simp add: clearBtn_click_def downloadJson_click_def downloadCsv_click_def)

theorem clear_then_exports_do_nothing_witness:
  "lastResponse (clearBtn_click page_with_result) = Null
   \<and> downloadJson_click (clearBtn_click page_with_result) = clearBtn_click page_with_result
   \<and> downloadCsv_click (clearBtn_click page_with_result) = clearBtn_click page_with_result
   \<and> downloadJson_click fresh_page = fresh_page
   \<and> downloadCsv_click fresh_page = fresh_page
   \<and> downloads (downloadJson_click page_with_result) = [(''qrng_response.json'', JsonOf earlier_payload)]"
proof -
  note t = clear_then_exports_do_nothing [of page_with_result fresh_page]
  note u = clear_then_exports_do_nothing [of page_with_result page_with_result]
  have f: "\<not> truthy (lastResponse fresh_page)" by (simp add: fresh_page_def)
  have g: "truthy (lastResponse page_with_result)"
    by (simp add: page_with_result_def earlier_payload_def)
  have d: "downloads page_with_result = []" "lastResponse page_with_result = earlier_payload"
    by (simp_all add: page_with_result_def fresh_page_def)
  from t f have "lastResponse (clearBtn_click page_with_result) = Null
     \<and> downloadJson_click (clearBtn_click page_with_result) = clearBtn_click page_with_result
     \<and> downloadCsv_click (clearBtn_click page_with_result) = clearBtn_click page_with_result
     \<and> downloadJson_click fresh_page = fresh_page
     \<and> downloadCsv_click fresh_page = fresh_page" by blast
  moreover from u g d have "downloads (downloadJson_click page_with_result)
      = [(''qrng_response.json'', JsonOf earlier_payload)]" by simp
  ultimately show ?thesis by blast
qed

end
